theory Spec2Isabelle
  imports Complex_Main "HOL-Library.AList"
begin

chapter \<open>Font properties of \<^verbatim>\<open>scientific_inkscape/text/font_properties.py\<close>\<close>

section \<open>The program\<close>

text \<open>
  The development follows the Python module function by function.  Exceptions are values:
  every function that can raise returns \<open>py_error + 'a\<close>, with \<open>Inl\<close> the exception.
\<close>

subsection \<open>Python exceptions and built-ins\<close>

datatype py_error =
    KeyError | AttributeError | TypeError | ValueError | ZeroDivisionError | IndexError
  | TTLibError | UnboundLocalError

text \<open>
  \<^verbatim>\<open>min(iterable, key=f)\<close>: raises \<^verbatim>\<open>ValueError\<close> on an empty iterable; otherwise walks
  the items in order and replaces the current best only by an item whose key is strictly
  smaller, so that the first item with the least key wins.
\<close>

fun min_scan :: "('a \<Rightarrow> 'o::linorder) \<Rightarrow> 'a \<Rightarrow> 'a list \<Rightarrow> 'a" where
  "min_scan key best [] = best"
| "min_scan key best (y # ys) = min_scan key (if key y < key best then y else best) ys"

fun py_min :: "('a \<Rightarrow> 'o::linorder) \<Rightarrow> 'a list \<Rightarrow> py_error + 'a" where
  "py_min key [] = Inl ValueError"
| "py_min key (x # xs) = Inr (min_scan key x xs)"

text \<open>
  A Python \<^verbatim>\<open>dict\<close> whose iteration order matters is an association list in insertion
  order; \<^verbatim>\<open>d[k]\<close> raises \<^verbatim>\<open>KeyError\<close> on a missing key.
\<close>

definition dict_getitem :: "('k \<times> 'v) list \<Rightarrow> 'k \<Rightarrow> py_error + 'v" where
  "dict_getitem d k = (case map_of d k of None \<Rightarrow> Inl KeyError | Some v \<Rightarrow> Inr v)"

subsection \<open>\<^verbatim>\<open>nearest_val\<close>\<close>

text \<open>
  \<^verbatim>\<open>
  def nearest_val(dictv, width_value):
      return dictv[min(dictv.keys(), key=lambda x: abs(x - width_value))]
  \<close>
\<close>

definition nearest_val :: "('k::linordered_idom \<times> 'v) list \<Rightarrow> 'k \<Rightarrow> py_error + 'v" where
  "nearest_val dictv width_value =
     (case py_min (\<lambda>x. \<bar>x - width_value\<bar>) (map fst dictv) of
        Inl e \<Rightarrow> Inl e
      | Inr k \<Rightarrow> dict_getitem dictv k)"


subsection \<open>Values and constants of the fontconfig binding\<close>

text \<open>
  A property read from a fontconfig pattern is a number, a string, or a tuple (a range,
  as a variable font reports for its weight).  The source tells them apart with
  \<^verbatim>\<open>isinstance(v, tuple)\<close>.
\<close>

datatype fcvalue = FcInt int | FcStr string | FcTuple "fcvalue list"

fun isinstance_tuple :: "fcvalue \<Rightarrow> bool" where
  "isinstance_tuple (FcTuple vs) = True"
| "isinstance_tuple v = False"

text \<open>
  The constants \<^verbatim>\<open>FC.WEIGHT_*\<close>, \<^verbatim>\<open>FC.SLANT_*\<close> and \<^verbatim>\<open>FC.WIDTH_*\<close>.  The class \<^verbatim>\<open>FC\<close> comes with
  the fontconfig binding and is not part of the module; the constants have the values of
  \<^verbatim>\<open>fontconfig.h\<close>.  The general theorems below do not depend on these values, the
  examples do.
\<close>

definition WEIGHT_THIN :: int where "WEIGHT_THIN = 0"
definition WEIGHT_EXTRALIGHT :: int where "WEIGHT_EXTRALIGHT = 40"
definition WEIGHT_LIGHT :: int where "WEIGHT_LIGHT = 50"
definition WEIGHT_SEMILIGHT :: int where "WEIGHT_SEMILIGHT = 55"
definition WEIGHT_BOOK :: int where "WEIGHT_BOOK = 75"
definition WEIGHT_NORMAL :: int where "WEIGHT_NORMAL = 80"
definition WEIGHT_MEDIUM :: int where "WEIGHT_MEDIUM = 100"
definition WEIGHT_SEMIBOLD :: int where "WEIGHT_SEMIBOLD = 180"
definition WEIGHT_BOLD :: int where "WEIGHT_BOLD = 200"
definition WEIGHT_ULTRABOLD :: int where "WEIGHT_ULTRABOLD = 205"
definition WEIGHT_HEAVY :: int where "WEIGHT_HEAVY = 210"
definition WEIGHT_ULTRABLACK :: int where "WEIGHT_ULTRABLACK = 215"

definition SLANT_ROMAN :: int where "SLANT_ROMAN = 0"
definition SLANT_ITALIC :: int where "SLANT_ITALIC = 100"
definition SLANT_OBLIQUE :: int where "SLANT_OBLIQUE = 110"

definition WIDTH_ULTRACONDENSED :: int where "WIDTH_ULTRACONDENSED = 50"
definition WIDTH_EXTRACONDENSED :: int where "WIDTH_EXTRACONDENSED = 63"
definition WIDTH_CONDENSED :: int where "WIDTH_CONDENSED = 75"
definition WIDTH_SEMICONDENSED :: int where "WIDTH_SEMICONDENSED = 87"
definition WIDTH_NORMAL :: int where "WIDTH_NORMAL = 100"
definition WIDTH_SEMIEXPANDED :: int where "WIDTH_SEMIEXPANDED = 113"
definition WIDTH_EXPANDED :: int where "WIDTH_EXPANDED = 125"
definition WIDTH_EXTRAEXPANDED :: int where "WIDTH_EXTRAEXPANDED = 150"
definition WIDTH_ULTRAEXPANDED :: int where "WIDTH_ULTRAEXPANDED = 200"

text \<open>
  A pattern the matching service has found.  \<^verbatim>\<open>f.get(fc.PROP.X, 0)[0]\<close> reads the field.
  The coverage set holds code points.
\<close>

record fcpattern =
  FAMILY :: fcvalue
  WEIGHT :: fcvalue
  SLANT :: fcvalue
  WIDTH :: fcvalue
  FILE :: string
  CHARSET :: "nat set"

subsection \<open>\<^verbatim>\<open>FontAttributeLookups\<close>\<close>

definition CSSWGT_to_FCWGT :: "(string \<times> int) list" where
  "CSSWGT_to_FCWGT =
     [(''normal'', WEIGHT_NORMAL), (''bold'', WEIGHT_BOLD),
      (''100'', WEIGHT_THIN), (''200'', WEIGHT_EXTRALIGHT), (''300'', WEIGHT_LIGHT),
      (''400'', WEIGHT_NORMAL), (''500'', WEIGHT_MEDIUM), (''600'', WEIGHT_SEMIBOLD),
      (''700'', WEIGHT_BOLD), (''800'', WEIGHT_ULTRABOLD), (''900'', WEIGHT_HEAVY)]"

definition CSSSTY_to_FCSLN :: "(string \<times> int) list" where
  "CSSSTY_to_FCSLN =
     [(''normal'', SLANT_ROMAN), (''italic'', SLANT_ITALIC), (''oblique'', SLANT_OBLIQUE)]"

definition CSSSTR_to_FCWDT :: "(string \<times> int) list" where
  "CSSSTR_to_FCWDT =
     [(''ultra-condensed'', WIDTH_ULTRACONDENSED), (''extra-condensed'', WIDTH_EXTRACONDENSED),
      (''condensed'', WIDTH_CONDENSED), (''semi-condensed'', WIDTH_SEMICONDENSED),
      (''normal'', WIDTH_NORMAL), (''semi-expanded'', WIDTH_SEMIEXPANDED),
      (''expanded'', WIDTH_EXPANDED), (''extra-expanded'', WIDTH_EXTRAEXPANDED),
      (''ultra-expanded'', WIDTH_ULTRAEXPANDED)]"

definition FCWGT_to_CSSWGT :: "(int \<times> string) list" where
  "FCWGT_to_CSSWGT =
     [(WEIGHT_THIN, ''100''), (WEIGHT_EXTRALIGHT, ''200''), (WEIGHT_LIGHT, ''300''),
      (WEIGHT_SEMILIGHT, ''300''), (WEIGHT_BOOK, ''400''), (WEIGHT_NORMAL, ''400''),
      (WEIGHT_MEDIUM, ''500''), (WEIGHT_SEMIBOLD, ''600''), (WEIGHT_BOLD, ''700''),
      (WEIGHT_ULTRABOLD, ''800''), (WEIGHT_HEAVY, ''900''), (WEIGHT_ULTRABLACK, ''900'')]"

definition FCSLN_to_CSSSTY :: "(int \<times> string) list" where
  "FCSLN_to_CSSSTY =
     [(SLANT_ROMAN, ''normal''), (SLANT_ITALIC, ''italic''), (SLANT_OBLIQUE, ''oblique'')]"

definition FCWDT_to_CSSSTR :: "(int \<times> string) list" where
  "FCWDT_to_CSSSTR =
     [(WIDTH_ULTRACONDENSED, ''ultra-condensed''), (WIDTH_EXTRACONDENSED, ''extra-condensed''),
      (WIDTH_CONDENSED, ''condensed''), (WIDTH_SEMICONDENSED, ''semi-condensed''),
      (WIDTH_NORMAL, ''normal''), (WIDTH_SEMIEXPANDED, ''semi-expanded''),
      (WIDTH_EXPANDED, ''expanded''), (WIDTH_EXTRAEXPANDED, ''extra-expanded''),
      (WIDTH_ULTRAEXPANDED, ''ultra-expanded'')]"

subsection \<open>Styles and the matching service\<close>

text \<open>
  A \<^verbatim>\<open>Style\<close> is an ordered dictionary of strings.  The code reads a style only through
  its \<^verbatim>\<open>items()\<close>; it never changes one.  Every \<^verbatim>\<open>Style(...)\<close> call makes a new object, so
  a style carries the identity it was created with: two styles are the same object when
  they agree on \<open>style_id\<close>, and merely equal when they agree on \<open>items\<close>.
\<close>

type_synonym style_items = "(string \<times> string) list"

record Style =
  style_id :: nat
  items :: style_items

text \<open>
  The search pattern that \<^verbatim>\<open>css_to_fc_pattern\<close> hands to fontconfig: the string given to
  \<^verbatim>\<open>fc.Pattern.name_parse(re.escape(...))\<close> and the three properties added to it.
\<close>

record search_pattern =
  pat_name :: string
  pat_WIDTH :: int
  pat_WEIGHT :: int
  pat_SLANT :: int

text \<open>
  The matching service, an external collaborator: \<^verbatim>\<open>conf.substitute\<close>,
  \<^verbatim>\<open>pat.default_substitute\<close> and then \<^verbatim>\<open>conf.font_match(pat)\<close>, respectively
  \<^verbatim>\<open>conf.font_sort(pat, trim=True, want_coverage=False)\<close>.
\<close>

record matching_service =
  font_match :: "search_pattern \<Rightarrow> fcpattern"
  font_sort :: "search_pattern \<Rightarrow> fcpattern list"

text \<open>\<^verbatim>\<open>d.get(k, default)\<close> and \<^verbatim>\<open>s.replace(c, "")\<close> for a one-character \<open>c\<close>,
  \<^verbatim>\<open>s.strip(c)\<close>.\<close>

definition dict_get :: "('k \<times> 'v) list \<Rightarrow> 'k \<Rightarrow> 'v \<Rightarrow> 'v" where
  "dict_get d k dflt = (case map_of d k of None \<Rightarrow> dflt | Some v \<Rightarrow> v)"

definition remove_chr :: "char \<Rightarrow> string \<Rightarrow> string" where
  "remove_chr c s = filter (\<lambda>x. x \<noteq> c) s"

definition strip_chr :: "char \<Rightarrow> string \<Rightarrow> string" where
  "strip_chr c s = rev (dropWhile (\<lambda>x. x = c) (rev (dropWhile (\<lambda>x. x = c) s)))"

text \<open>
  \<^verbatim>\<open>
  def css_to_fc_pattern(self, sty):
      pat = fc.Pattern.name_parse(
          re.escape(sty["font-family"].replace("'", "").replace('"', "")))
      pat.add(fc.PROP.WIDTH,
              lu.CSSSTR_to_FCWDT.get(sty.get("font-stretch"), FC.WIDTH_NORMAL))
      pat.add(fc.PROP.WEIGHT,
              lu.CSSWGT_to_FCWGT.get(sty.get("font-weight"), FC.WEIGHT_NORMAL))
      pat.add(fc.PROP.SLANT,
              lu.CSSSTY_to_FCSLN.get(sty.get("font-style"), FC.SLANT_ROMAN))
      return pat
  \<close>
  \<^verbatim>\<open>sty.get(k)\<close> is \<^verbatim>\<open>None\<close> for a missing attribute, and \<^verbatim>\<open>None\<close> is no key of the tables.
\<close>

definition lookup_att :: "(string \<times> int) list \<Rightarrow> Style \<Rightarrow> string \<Rightarrow> int \<Rightarrow> int" where
  "lookup_att table sty att dflt =
     (case map_of (items sty) att of None \<Rightarrow> dflt | Some v \<Rightarrow> dict_get table v dflt)"

definition css_to_fc_pattern :: "Style \<Rightarrow> py_error + search_pattern" where
  "css_to_fc_pattern sty =
     (case dict_getitem (items sty) ''font-family'' of
        Inl e \<Rightarrow> Inl e
      | Inr fam \<Rightarrow>
          Inr \<lparr> pat_name = remove_chr (CHR 0x22) (remove_chr (CHR 0x27) fam),
                pat_WIDTH = lookup_att CSSSTR_to_FCWDT sty ''font-stretch'' WIDTH_NORMAL,
                pat_WEIGHT = lookup_att CSSWGT_to_FCWGT sty ''font-weight'' WEIGHT_NORMAL,
                pat_SLANT = lookup_att CSSSTY_to_FCSLN sty ''font-style'' SLANT_ROMAN \<rparr>)"

text \<open>
  \<^verbatim>\<open>
  def fcfound_to_css(self, f):
      fcfam = f.get(fc.PROP.FAMILY, 0)[0]
      fcwgt = f.get(fc.PROP.WEIGHT, 0)[0]
      fcsln = f.get(fc.PROP.SLANT, 0)[0]
      fcwdt = f.get(fc.PROP.WIDTH, 0)[0]
      if any([isinstance(v, tuple) for v in [fcfam, fcwgt, fcsln, fcwdt]]):
          return None
      else:
          return Style([
              ("font-family", "'" + fcfam.strip("'") + "'"),
              ("font-weight", nearest_val(lu.FCWGT_to_CSSWGT, fcwgt)),
              ("font-style", lu.FCSLN_to_CSSSTY[fcsln]),
              ("font-stretch", nearest_val(lu.FCWDT_to_CSSSTR, fcwdt)),
          ])
  \<close>
  The list is built left to right, so the first failing entry decides the exception:
  a number has no \<^verbatim>\<open>strip\<close>, a string cannot be subtracted from a key of the table, and
  a slant outside the table is a \<^verbatim>\<open>KeyError\<close>.  The second argument is the identity of the
  \<^verbatim>\<open>Style\<close> object that is created.
\<close>

fun nearest_val_fc :: "(int \<times> 'v) list \<Rightarrow> fcvalue \<Rightarrow> py_error + 'v" where
  "nearest_val_fc table (FcInt n) = nearest_val table n"
| "nearest_val_fc table v = Inl TypeError"

fun getitem_fc :: "(int \<times> 'v) list \<Rightarrow> fcvalue \<Rightarrow> py_error + 'v" where
  "getitem_fc table (FcInt n) = dict_getitem table n"
| "getitem_fc table v = Inl KeyError"

definition fcfound_to_css :: "fcpattern \<Rightarrow> nat \<Rightarrow> py_error + Style option" where
  "fcfound_to_css f new_id =
     (let fcfam = FAMILY f; fcwgt = WEIGHT f; fcsln = SLANT f; fcwdt = WIDTH f in
      if list_ex isinstance_tuple [fcfam, fcwgt, fcsln, fcwdt] then Inr None
      else
        (case fcfam of
           FcStr fam \<Rightarrow>
             (case nearest_val_fc FCWGT_to_CSSWGT fcwgt of
                Inl e \<Rightarrow> Inl e
              | Inr wgt \<Rightarrow>
                 (case getitem_fc FCSLN_to_CSSSTY fcsln of
                    Inl e \<Rightarrow> Inl e
                  | Inr sty \<Rightarrow>
                     (case nearest_val_fc FCWDT_to_CSSSTR fcwdt of
                        Inl e \<Rightarrow> Inl e
                      | Inr str \<Rightarrow>
                         Inr (Some \<lparr> style_id = new_id,
                                     items = [(''font-family'', [CHR 0x27] @ strip_chr (CHR 0x27) fam @ [CHR 0x27]),
                                              (''font-weight'', wgt),
                                              (''font-style'', sty),
                                              (''font-stretch'', str)] \<rparr>))))
         | _ \<Rightarrow> Inl AttributeError))"


subsection \<open>\<^verbatim>\<open>FontConfig\<close>: the resolver and its caches\<close>

text \<open>
  The object's dictionaries, keyed by \<^verbatim>\<open>tuple(style.items())\<close>.  A value \<open>None\<close> stored in
  \<open>truefonts\<close> is Python's \<^verbatim>\<open>None\<close>; a key that is absent is \<open>None\<close> of the map.
  (\<^verbatim>\<open>truefontsft\<close> belongs to \<^verbatim>\<open>get_fonttools_font\<close>, which is not modelled.)
  Two counters record the effects outside the object: \<open>next_id\<close> is the identity the next
  \<^verbatim>\<open>Style\<close> object gets, \<open>queries\<close> counts the calls of \<^verbatim>\<open>font_match\<close> and \<^verbatim>\<open>font_sort\<close>.
  An exception leaves the object as it was changed so far, so every method returns its
  outcome together with the new state.
\<close>

record FontConfig =
  truefonts :: "style_items \<rightharpoonup> Style option"
  truefontsfc :: "style_items \<rightharpoonup> fcpattern"
  fontcharsets :: "style_items \<rightharpoonup> nat set"
  next_id :: nat
  queries :: nat

text \<open>
  \<^verbatim>\<open>
  def get_true_font(self, reducedsty):
      nftuple = tuple(reducedsty.items())  # for hashing
      if nftuple not in self.truefonts:
          pat = self.css_to_fc_pattern(reducedsty)
          conf = fc.Config.get_current()
          conf.substitute(pat, FC.MatchPattern)
          pat.default_substitute()
          found, status = conf.font_match(pat)
          truefont = self.fcfound_to_css(found)

          self.truefonts[nftuple] = truefont
          self.truefontsfc[nftuple] = found
          self.fontcharsets[tuple(truefont.items())] = found.get(fc.PROP.CHARSET, 0)[0]
      return self.truefonts[nftuple]
  \<close>
  When \<^verbatim>\<open>fcfound_to_css\<close> has returned \<^verbatim>\<open>None\<close>, \<^verbatim>\<open>truefont.items()\<close> raises
  \<^verbatim>\<open>AttributeError\<close>, after the first two caches have been written.
\<close>

definition get_true_font ::
  "matching_service \<Rightarrow> Style \<Rightarrow> FontConfig \<Rightarrow> (py_error + Style option) \<times> FontConfig" where
  "get_true_font svc reducedsty self =
     (let nftuple = items reducedsty in
      case truefonts self nftuple of
        Some cached \<Rightarrow> (Inr cached, self)
      | None \<Rightarrow>
         (case css_to_fc_pattern reducedsty of
            Inl e \<Rightarrow> (Inl e, self)
          | Inr pat \<Rightarrow>
             (let found = font_match svc pat;
                  self1 = self\<lparr>queries := queries self + 1\<rparr> in
              case fcfound_to_css found (next_id self1) of
                Inl e \<Rightarrow> (Inl e, self1)
              | Inr None \<Rightarrow>
                  (Inl AttributeError,
                   self1\<lparr>truefonts := (truefonts self1)(nftuple \<mapsto> None),
                         truefontsfc := (truefontsfc self1)(nftuple \<mapsto> found)\<rparr>)
              | Inr (Some truefont) \<Rightarrow>
                  (Inr (Some truefont),
                   self1\<lparr>next_id := next_id self1 + 1,
                         truefonts := (truefonts self1)(nftuple \<mapsto> Some truefont),
                         truefontsfc := (truefontsfc self1)(nftuple \<mapsto> found),
                         fontcharsets := (fontcharsets self1)(items truefont \<mapsto> CHARSET found)\<rparr>))))"

text \<open>
  A dictionary that is iterated or measured with \<^verbatim>\<open>len\<close> is an association list with
  distinct keys in insertion order: \<^verbatim>\<open>d[k] = v\<close> is \<open>AList.update\<close>, which overwrites in
  place or appends.  A character is a one-character string, identified with its code
  point, so that \<^verbatim>\<open>ord\<close> is the identity.
\<close>

type_synonym uchar = nat

type_synonym ('k, 'v) pydict = "('k \<times> 'v) list"

definition dict_contains :: "('k, 'v) pydict \<Rightarrow> 'k \<Rightarrow> bool" where
  "dict_contains d k = (map_of d k \<noteq> None)"

text \<open>\<^verbatim>\<open>{k: v for k in ks if cond(k)}\<close> and \<^verbatim>\<open>d.update(d2)\<close>.\<close>

definition dict_comp :: "('k \<Rightarrow> bool) \<Rightarrow> 'v \<Rightarrow> 'k list \<Rightarrow> ('k, 'v) pydict" where
  "dict_comp cond v ks = foldl (\<lambda>d k. if cond k then AList.update k v d else d) [] ks"

definition dict_update :: "('k, 'v) pydict \<Rightarrow> ('k, 'v) pydict \<Rightarrow> ('k, 'v) pydict" where
  "dict_update d d2 = foldl (\<lambda>d kv. AList.update (fst kv) (snd kv) d) d d2"

text \<open>
  The first phase of \<^verbatim>\<open>get_true_font_by_char\<close>:
  \<^verbatim>\<open>
      nftuple = tuple(reducedsty.items())
      if nftuple in self.truefonts:
          truefont = self.truefonts[nftuple]
          d = {k: truefont for k in chars
               if ord(k) in self.fontcharsets[tuple(truefont.items())]}
      else:
          d = {}
  \<close>
  The condition is evaluated once for each character, so nothing is raised for an empty
  \<open>chars\<close>; otherwise a cached \<^verbatim>\<open>None\<close> raises \<^verbatim>\<open>AttributeError\<close> and a face without a
  cached coverage set raises \<^verbatim>\<open>KeyError\<close>.
\<close>

definition cached_hits ::
  "Style \<Rightarrow> uchar list \<Rightarrow> FontConfig \<Rightarrow> py_error + (uchar, Style option) pydict" where
  "cached_hits reducedsty chars self =
     (case truefonts self (items reducedsty) of
        None \<Rightarrow> Inr []
      | Some truefont \<Rightarrow>
          if chars = [] then Inr []
          else (case truefont of
                  None \<Rightarrow> Inl AttributeError
                | Some tf \<Rightarrow>
                   (case fontcharsets self (items tf) of
                      None \<Rightarrow> Inl KeyError
                    | Some cs \<Rightarrow> Inr (dict_comp (\<lambda>k. k \<in> cs) truefont chars))))"

text \<open>
  The walk over the ranked list:
  \<^verbatim>\<open>
      for f in found:
          truefont = self.fcfound_to_css(f)
          cs = f.get(fc.PROP.CHARSET, 0)[0]
          self.fontcharsets[tuple(truefont.items())] = cs
          d2 = {k: truefont for k in chars if ord(k) in cs and k not in d}
          d.update(d2)
          if len(d) == len(chars):
              break
  \<close>
\<close>

fun font_sort_loop ::
  "fcpattern list \<Rightarrow> uchar list \<Rightarrow> (uchar, Style option) pydict \<Rightarrow> FontConfig
     \<Rightarrow> (py_error + (uchar, Style option) pydict) \<times> FontConfig" where
  "font_sort_loop [] chars d self = (Inr d, self)"
| "font_sort_loop (f # found) chars d self =
     (case fcfound_to_css f (next_id self) of
        Inl e \<Rightarrow> (Inl e, self)
      | Inr None \<Rightarrow> (Inl AttributeError, self)
      | Inr (Some truefont) \<Rightarrow>
         (let cs = CHARSET f;
              self1 = self\<lparr>next_id := next_id self + 1,
                           fontcharsets := (fontcharsets self)(items truefont \<mapsto> cs)\<rparr>;
              d2 = dict_comp (\<lambda>k. k \<in> cs \<and> \<not> dict_contains d k) (Some truefont) chars;
              d' = dict_update d d2
          in if length d' = length chars then (Inr d', self1)
             else font_sort_loop found chars d' self1))"

text \<open>
  \<^verbatim>\<open>
  def get_true_font_by_char(self, reducedsty, chars):
      ...first phase...
      if len(d) < len(chars):
          pat = self.css_to_fc_pattern(reducedsty)
          conf = fc.Config.get_current()
          conf.substitute(pat, FC.MatchPattern)
          pat.default_substitute()
          found, total_coverage, status = conf.font_sort(
              pat, trim=True, want_coverage=False)
          ...the walk...
          if len(d) < len(chars):
              d.update({c: None for c in chars if c not in d})
      return d
  \<close>
\<close>

definition get_true_font_by_char ::
  "matching_service \<Rightarrow> Style \<Rightarrow> uchar list \<Rightarrow> FontConfig
     \<Rightarrow> (py_error + (uchar, Style option) pydict) \<times> FontConfig" where
  "get_true_font_by_char svc reducedsty chars self =
     (case cached_hits reducedsty chars self of
        Inl e \<Rightarrow> (Inl e, self)
      | Inr d \<Rightarrow>
          if length d < length chars then
            (case css_to_fc_pattern reducedsty of
               Inl e \<Rightarrow> (Inl e, self)
             | Inr pat \<Rightarrow>
                (let found = font_sort svc pat;
                     self1 = self\<lparr>queries := queries self + 1\<rparr> in
                 case font_sort_loop found chars d self1 of
                   (Inl e, self2) \<Rightarrow> (Inl e, self2)
                 | (Inr d', self2) \<Rightarrow>
                     if length d' < length chars
                     then (Inr (dict_update d'
                                  (dict_comp (\<lambda>c. \<not> dict_contains d' c) None chars)), self2)
                     else (Inr d', self2)))
          else (Inr d, self))"

subsection \<open>Notions used to state the properties of the resolver\<close>

text \<open>
  A dictionary over the requested characters: its keys are distinct and are requested
  characters.
\<close>

definition dict_ok :: "'k list \<Rightarrow> ('k, 'v) pydict \<Rightarrow> bool" where
  "dict_ok ks d = (distinct (map fst d) \<and> fst ` set d \<subseteq> set ks)"

text \<open>One round of the walk: \<^verbatim>\<open>d.update({k: v for k in chars if ord(k) in cs and k not in d})\<close>.\<close>

definition assign_step ::
  "nat set \<Rightarrow> Style option \<Rightarrow> uchar list \<Rightarrow> (uchar, Style option) pydict
     \<Rightarrow> (uchar, Style option) pydict" where
  "assign_step cs v chars d =
     dict_update d (dict_comp (\<lambda>k. k \<in> cs \<and> \<not> dict_contains d k) v chars)"

text \<open>
  The cached primary face of a style covers a character: the style has a face in
  \<open>truefonts\<close> whose cached coverage set holds the character.
\<close>

definition primary_covers :: "FontConfig \<Rightarrow> Style \<Rightarrow> uchar \<Rightarrow> bool" where
  "primary_covers self reducedsty c =
     (case truefonts self (items reducedsty) of
        Some (Some tf) \<Rightarrow>
          (case fontcharsets self (items tf) of Some cs \<Rightarrow> c \<in> cs | None \<Rightarrow> False)
      | _ \<Rightarrow> False)"

text \<open>The ranked list that the matching service returns for a style.\<close>

definition ranked_faces :: "matching_service \<Rightarrow> Style \<Rightarrow> fcpattern list" where
  "ranked_faces svc reducedsty =
     (case css_to_fc_pattern reducedsty of Inl e \<Rightarrow> [] | Inr pat \<Rightarrow> font_sort svc pat)"

subsection \<open>Font tables as \<^verbatim>\<open>fontTools\<close> presents them\<close>

text \<open>
  The binary font-table parser is an external collaborator; a font is the set of values
  that the code reads from it.  \<^verbatim>\<open>head\<close>, \<^verbatim>\<open>hhea\<close>, \<^verbatim>\<open>hmtx\<close> and \<^verbatim>\<open>name\<close> are required tables
  of every font and are read without a test, so they are plain fields; \<^verbatim>\<open>OS/2\<close>,
  \<^verbatim>\<open>fvar\<close>, \<^verbatim>\<open>kern\<close>, \<^verbatim>\<open>GSUB\<close> and \<^verbatim>\<open>glyf\<close> are tested with \<^verbatim>\<open>in self.font\<close> and are optional.
  \<^verbatim>\<open>getBestCmap()\<close> is \<^verbatim>\<open>None\<close> for a font without a Unicode character map.  Design units
  are Python integers.
\<close>

type_synonym glyph = string

record os2_table =
  version :: nat
  usWeightClass :: int
  usWidthClass :: int
  fsSelection :: nat
  sTypoAscender :: int
  sTypoDescender :: int
  sxHeight :: int
  sCapHeight :: "int option"

record hhea_table =
  ascent :: int
  descent :: int

record glyph_bounds =
  xMin :: int
  yMin :: int
  xMax :: int
  yMax :: int

record ligature =
  Component :: "glyph list"
  LigGlyph :: glyph

text \<open>
  A subtable of a \<^verbatim>\<open>GSUB\<close> lookup.  For a lookup of type 7 the code reads
  \<^verbatim>\<open>subtable.ExtSubTable\<close> and its \<^verbatim>\<open>LookupType\<close>; \<open>ExtLookupType\<close> is that type and
  \<open>ligatures\<close> the wrapped subtable's dictionary.  For any other lookup \<open>ligatures\<close> is
  the subtable's own dictionary (read for type 4 only).
\<close>

record gsub_subtable =
  ExtLookupType :: nat
  ligatures :: "(glyph \<times> ligature list) list"

record gsub_lookup =
  LookupType :: nat
  SubTable :: "gsub_subtable list"

text \<open>\<^verbatim>\<open>cmap.get\<close> gives a glyph name or \<^verbatim>\<open>None\<close>, and the pair of two such values is the
  key looked up in a kerning subtable's \<^verbatim>\<open>kernTable\<close>.\<close>

type_synonym kernTable = "(glyph option \<times> glyph option) \<rightharpoonup> int"

record TTFont =
  unitsPerEm :: nat
  OS2 :: "os2_table option"
  hhea :: hhea_table
  subfamily :: "string option"
  fvar :: "string list option"
  getBestCmap :: "(nat \<rightharpoonup> glyph) option"
  hmtx_metrics :: "glyph \<rightharpoonup> (int \<times> int)"
  kern :: "kernTable list option"
  GSUB :: "gsub_lookup list option"
  glyf :: "(glyph \<rightharpoonup> glyph_bounds) option"
  getGlyphNames :: "glyph list"
  glyph_x_height :: "int option"

text \<open>
  \<open>subfamily\<close> is \<^verbatim>\<open>font["name"].getName(2, 3, 1, 1033)\<close>, decoded; \<open>fvar\<close> lists the axis
  tags; \<open>glyph_x_height\<close> is \<^verbatim>\<open>glyph_set["x"].height\<close>, or \<open>None\<close> when the glyph set has no
  \<^verbatim>\<open>x\<close> or the height is \<^verbatim>\<open>None\<close>.

  Python's \<^verbatim>\<open>/\<close> on integers is true division; a float is modelled by the rational number
  it approximates.
\<close>

definition py_truediv :: "int \<Rightarrow> nat \<Rightarrow> py_error + rat" where
  "py_truediv a b = (if b = 0 then Inl ZeroDivisionError else Inr (of_int a / of_nat b))"

subsection \<open>\<^verbatim>\<open>FontTools_FontInstance.font_from_fc\<close>\<close>

datatype font_file = SingleFont TTFont | FontCollection "TTFont list"

text \<open>
  What the code asks of the library: \<^verbatim>\<open>TTFont(fname)\<close> opens a single font and raises on
  a collection, \<^verbatim>\<open>TTCollection(fname)\<close> and \<^verbatim>\<open>TTFont(fname, fontNumber=i)\<close> open a collection
  and raise on a single font; \<^verbatim>\<open>mutator.instantiateVariableFont\<close> may fail.
\<close>

record fonttools =
  open_file :: "string \<Rightarrow> font_file"
  instantiateVariableFont :: "TTFont \<Rightarrow> (string, fcvalue) pydict \<Rightarrow> py_error + TTFont"

definition FCWGT_to_OS2WGT :: "(int \<times> int) list" where
  "FCWGT_to_OS2WGT =
     [(WEIGHT_THIN, 100), (WEIGHT_EXTRALIGHT, 200), (WEIGHT_LIGHT, 300),
      (WEIGHT_SEMILIGHT, 350), (WEIGHT_BOOK, 380), (WEIGHT_NORMAL, 400),
      (WEIGHT_MEDIUM, 500), (WEIGHT_SEMIBOLD, 600), (WEIGHT_BOLD, 700),
      (WEIGHT_ULTRABOLD, 800), (WEIGHT_HEAVY, 900), (WEIGHT_ULTRABLACK, 1000)]"

definition OS2WDT_to_FCWDT :: "(int \<times> int) list" where
  "OS2WDT_to_FCWDT =
     [(1, WIDTH_ULTRACONDENSED), (2, WIDTH_EXTRACONDENSED), (3, WIDTH_CONDENSED),
      (4, WIDTH_SEMICONDENSED), (5, WIDTH_NORMAL), (6, WIDTH_SEMIEXPANDED),
      (7, WIDTH_EXPANDED), (8, WIDTH_EXTRAEXPANDED), (9, WIDTH_ULTRAEXPANDED)]"

definition OS2WGT_to_FCWGT :: "(int \<times> int) list" where
  "OS2WGT_to_FCWGT =
     [(100, WEIGHT_THIN), (200, WEIGHT_EXTRALIGHT), (300, WEIGHT_LIGHT),
      (350, WEIGHT_SEMILIGHT), (380, WEIGHT_BOOK), (400, WEIGHT_NORMAL),
      (500, WEIGHT_MEDIUM), (600, WEIGHT_SEMIBOLD), (700, WEIGHT_BOLD),
      (800, WEIGHT_ULTRABOLD), (900, WEIGHT_HEAVY), (1000, WEIGHT_ULTRABLACK)]"

text \<open>
  The variable-font branch:
  \<^verbatim>\<open>
      location = dict()
      for axis in font["fvar"].axes:
          if axis.axisTag == "wght":
              location["wght"] = nearest_val(FCWGT_to_OS2WGT, fcwgt)
          elif axis.axisTag == "wdth":
              location["wdth"] = fcwdt
  \<close>
\<close>

fun fvar_location ::
  "string list \<Rightarrow> fcvalue \<Rightarrow> fcvalue \<Rightarrow> (string, fcvalue) pydict
     \<Rightarrow> py_error + (string, fcvalue) pydict" where
  "fvar_location [] fcwgt fcwdt location = Inr location"
| "fvar_location (axisTag # axes) fcwgt fcwdt location =
     (if axisTag = ''wght'' then
        (case nearest_val_fc FCWGT_to_OS2WGT fcwgt of
           Inl e \<Rightarrow> Inl e
         | Inr w \<Rightarrow> fvar_location axes fcwgt fcwdt (AList.update ''wght'' (FcInt w) location))
      else if axisTag = ''wdth'' then
        fvar_location axes fcwgt fcwdt (AList.update ''wdth'' fcwdt location)
      else fvar_location axes fcwgt fcwdt location)"

text \<open>
  \<^verbatim>\<open>s.lower()\<close> on the letters \<open>A\<close> to \<open>Z\<close> (a HOL string is a byte string; the two words
  that are searched for are ASCII), and \<^verbatim>\<open>needle in s\<close> for strings.
\<close>

definition lower :: "string \<Rightarrow> string" where
  "lower s =
     map (\<lambda>c. case map_of (zip ''ABCDEFGHIJKLMNOPQRSTUVWXYZ'' ''abcdefghijklmnopqrstuvwxyz'') c of
                 Some l \<Rightarrow> l
               | None \<Rightarrow> c) s"

fun str_contains :: "string \<Rightarrow> string \<Rightarrow> bool" where
  "str_contains needle [] = (needle = [])"
| "str_contains needle (c # cs) =
     (take (length needle) (c # cs) = needle \<or> str_contains needle cs)"

text \<open>
  The body of the loop over the faces of a collection, up to the score:
  \<^verbatim>\<open>
      tfont = TTFont(fname, fontNumber=i)
      font_weight = tfont["OS/2"].usWeightClass
      font_width = tfont["OS/2"].usWidthClass
      subfamily = tfont["name"].getName(2, 3, 1, 1033)
      subfamily = (subfamily.toUnicode() if subfamily is not None else "Unknown")
      font_italic = ((tfont["OS/2"].fsSelection & 1) != 0
                     or "italic" in subfamily.lower()
                     or "oblique" in subfamily.lower())
      matches = [
          nearest_val(OS2WGT_to_FCWGT, font_weight) == fcwgt,
          OS2WDT_to_FCWDT[font_width] == fcwdt,
          ((font_italic and fcsln in [FC.SLANT_ITALIC, FC.SLANT_OBLIQUE])
           or (not font_italic and fcsln == FC.SLANT_ROMAN)),
      ]
      num_match.append(sum(matches))
  \<close>
  A face without an \<^verbatim>\<open>OS/2\<close> table and a width class outside 1 to 9 raise \<^verbatim>\<open>KeyError\<close>.
\<close>

definition font_italic :: "TTFont \<Rightarrow> os2_table \<Rightarrow> bool" where
  "font_italic tfont os2 =
     (let name = (case subfamily tfont of None \<Rightarrow> ''Unknown'' | Some s \<Rightarrow> s) in
      odd (fsSelection os2) \<or> str_contains ''italic'' (lower name)
        \<or> str_contains ''oblique'' (lower name))"

definition matches :: "fcpattern \<Rightarrow> TTFont \<Rightarrow> py_error + bool list" where
  "matches found tfont =
     (let fcwgt = WEIGHT found; fcsln = SLANT found; fcwdt = WIDTH found in
      case OS2 tfont of
        None \<Rightarrow> Inl KeyError
      | Some os2 \<Rightarrow>
         (case nearest_val OS2WGT_to_FCWGT (usWeightClass os2) of
            Inl e \<Rightarrow> Inl e
          | Inr wgt \<Rightarrow>
             (case dict_getitem OS2WDT_to_FCWDT (usWidthClass os2) of
                Inl e \<Rightarrow> Inl e
              | Inr wdt \<Rightarrow>
                 Inr [FcInt wgt = fcwgt,
                      FcInt wdt = fcwdt,
                      (font_italic tfont os2
                         \<and> (fcsln = FcInt SLANT_ITALIC \<or> fcsln = FcInt SLANT_OBLIQUE))
                      \<or> (\<not> font_italic tfont os2 \<and> fcsln = FcInt SLANT_ROMAN)])))"

text \<open>\<^verbatim>\<open>sum(matches)\<close> counts the entries that are \<^verbatim>\<open>True\<close>.\<close>

definition subface_score :: "fcpattern \<Rightarrow> TTFont \<Rightarrow> py_error + nat" where
  "subface_score found tfont =
     (case matches found tfont of Inl e \<Rightarrow> Inl e | Inr ms \<Rightarrow> Inr (length (filter id ms)))"

text \<open>
  \<^verbatim>\<open>
      num_match = []
      for i in range(num_fonts):
          ...
          num_match.append(sum(matches))
          if num_match[-1] == 3:
              font = tfont
              break
  \<close>
  The loop returns the scores so far and the font it has assigned, if any.
\<close>

fun collection_loop ::
  "fcpattern \<Rightarrow> TTFont list \<Rightarrow> nat list \<Rightarrow> py_error + (nat list \<times> TTFont option)" where
  "collection_loop found [] num_match = Inr (num_match, None)"
| "collection_loop found (tfont # rest) num_match =
     (case subface_score found tfont of
        Inl e \<Rightarrow> Inl e
      | Inr n \<Rightarrow>
          if n = 3 then Inr (num_match @ [n], Some tfont)
          else collection_loop found rest (num_match @ [n]))"

text \<open>\<^verbatim>\<open>max(xs)\<close> on numbers; \<^verbatim>\<open>ValueError\<close> on an empty list.\<close>

fun py_max :: "nat list \<Rightarrow> py_error + nat" where
  "py_max [] = Inl ValueError"
| "py_max (x # xs) = Inr (fold max xs x)"

text \<open>
  \<^verbatim>\<open>
      if max(num_match) < 3:
          # Did not find a perfect match
          font = [TTFont(fname, fontNumber=i)
                  for i in range(num_fonts)
                  if num_match[i] == max(num_match)][0]
  \<close>
  When this runs the loop has not left early, so \<open>num_match\<close> has one score for each face
  and \<^verbatim>\<open>num_match[i]\<close> is the score paired with face \<open>i\<close>.  When it does not run, the
  loop has assigned \<open>font\<close>.
\<close>

definition select_subface :: "fcpattern \<Rightarrow> TTFont list \<Rightarrow> py_error + TTFont" where
  "select_subface found fonts =
     (case collection_loop found fonts [] of
        Inl e \<Rightarrow> Inl e
      | Inr (num_match, font) \<Rightarrow>
         (case py_max num_match of
            Inl e \<Rightarrow> Inl e
          | Inr mx \<Rightarrow>
              if mx < 3 then
                (case map fst (filter (\<lambda>p. snd p = mx) (zip fonts num_match)) of
                   [] \<Rightarrow> Inl IndexError
                 | tfont # _ \<Rightarrow> Inr tfont)
              else (case font of Some tfont \<Rightarrow> Inr tfont | None \<Rightarrow> Inl UnboundLocalError)))"

text \<open>
  \<^verbatim>\<open>
  def font_from_fc(self, found):
      fname = found.get(fc.PROP.FILE, 0)[0]
      try:
          font = TTFont(fname)
          if "fvar" in font:
              ...location...
              if len(location) > 0:
                  font = mutator.instantiateVariableFont(font, location)
      except:
          ...
          collection = TTCollection(fname)
          ...the loop and the choice...
      return font
  \<close>
  For a single font an exception inside \<^verbatim>\<open>try\<close> leads to \<^verbatim>\<open>TTCollection(fname)\<close>, which
  raises.
\<close>

definition font_from_fc :: "fonttools \<Rightarrow> fcpattern \<Rightarrow> py_error + TTFont" where
  "font_from_fc lib found =
     (case open_file lib (FILE found) of
        SingleFont font \<Rightarrow>
          (case (case fvar font of
                   None \<Rightarrow> Inr font
                 | Some axes \<Rightarrow>
                    (case fvar_location axes (WEIGHT found) (WIDTH found) [] of
                       Inl e \<Rightarrow> Inl e
                     | Inr location \<Rightarrow>
                         if length location > 0 then instantiateVariableFont lib font location
                         else Inr font)) of
             Inr font' \<Rightarrow> Inr font'
           | Inl e \<Rightarrow> Inl TTLibError)
      | FontCollection fonts \<Rightarrow> select_subface found fonts)"

subsection \<open>\<^verbatim>\<open>FontTools_FontInstance.find_font_metrics\<close>\<close>

record font_metrics =
  self_ascent :: rat
  self_descent :: rat
  self_ascent_max :: rat
  self_descent_max :: rat
  self_design_units :: nat
  self_xheight :: rat
  self_baselines :: "rat list"
  self_cap_height :: rat

text \<open>
  \<^verbatim>\<open>
      if os2 and hasattr(os2, "sCapHeight") and os2.sCapHeight not in [0, None]:
          self.cap_height = os2.sCapHeight / unitsPerEm
      elif "glyf" in font and "I" in font.getGlyphNames():
          glyf_table = font["glyf"]
          i_glyph = glyf_table["I"]
          self.cap_height = (i_glyph.yMax - 0 * i_glyph.yMin) / unitsPerEm
      else:
          self.cap_height = 1
  \<close>
  \<open>sCapHeight\<close> is \<open>None\<close> when the attribute is missing or \<^verbatim>\<open>None\<close>.  A glyph \<^verbatim>\<open>I\<close> without
  bounds has no \<^verbatim>\<open>yMax\<close>.
\<close>

definition cap_height :: "TTFont \<Rightarrow> py_error + rat" where
  "cap_height font =
     (let from_glyf =
        (case glyf font of
           Some glyf_table \<Rightarrow>
             if ''I'' \<in> set (getGlyphNames font) then
               (case glyf_table ''I'' of
                  None \<Rightarrow> Inl AttributeError
                | Some i_glyph \<Rightarrow> py_truediv (yMax i_glyph - 0 * yMin i_glyph) (unitsPerEm font))
             else Inr 1
         | None \<Rightarrow> Inr 1)
      in case OS2 font of
           Some os2 \<Rightarrow>
             (case sCapHeight os2 of
                Some h \<Rightarrow> if h \<noteq> 0 then py_truediv h (unitsPerEm font) else from_glyf
              | None \<Rightarrow> from_glyf)
         | None \<Rightarrow> from_glyf)"

text \<open>
  The ascent and the descent before they are normalised:
  \<^verbatim>\<open>
      if os2:
          self._ascent = abs(os2.sTypoAscender / unitsPerEm)
          self._descent = abs(os2.sTypoDescender / unitsPerEm)
      else:
          self._ascent = abs(font["hhea"].ascent / unitsPerEm)
          self._descent = abs(font["hhea"].descent / unitsPerEm)
  \<close>
  (for a \<^verbatim>\<open>unitsPerEm\<close> that is not zero; \<open>find_font_metrics\<close> below raises otherwise).
\<close>

definition source_ascent :: "TTFont \<Rightarrow> rat" where
  "source_ascent font =
     (case OS2 font of
        Some os2 \<Rightarrow> \<bar>of_int (sTypoAscender os2) / of_nat (unitsPerEm font)\<bar>
      | None \<Rightarrow> \<bar>of_int (ascent (hhea font)) / of_nat (unitsPerEm font)\<bar>)"

definition source_descent :: "TTFont \<Rightarrow> rat" where
  "source_descent font =
     (case OS2 font of
        Some os2 \<Rightarrow> \<bar>of_int (sTypoDescender os2) / of_nat (unitsPerEm font)\<bar>
      | None \<Rightarrow> \<bar>of_int (descent (hhea font)) / of_nat (unitsPerEm font)\<bar>)"

text \<open>
  \<^verbatim>\<open>
  def find_font_metrics(self):
      font = self.font
      unitsPerEm = self.head.unitsPerEm
      os2 = self.os2
      if os2:
          self._ascent = abs(os2.sTypoAscender / unitsPerEm)
          self._descent = abs(os2.sTypoDescender / unitsPerEm)
      else:
          self._ascent = abs(font["hhea"].ascent / unitsPerEm)
          self._descent = abs(font["hhea"].descent / unitsPerEm)
      self._ascent_max = abs(font["hhea"].ascent / unitsPerEm)
      self._descent_max = abs(font["hhea"].descent / unitsPerEm)
      self._design_units = unitsPerEm
      em = self._ascent + self._descent
      if em > 0.0:
          self._ascent /= em
          self._descent /= em

      if os2 and os2.version >= 0x0002 and os2.version != 0xFFFF:
          self._xheight = abs(os2.sxHeight / unitsPerEm)
      else:
          glyph_set = font.getGlyphSet()
          self._xheight = (abs(glyph_set["x"].height / unitsPerEm)
                           if "x" in glyph_set and glyph_set["x"].height is not None
                           else 0.5)
      self._baselines = [0] * 8
      ...the seven assignments; index 7 (alphabetic) stays 0...
      ...cap height...
  \<close>
  Both branches of the first test divide by \<^verbatim>\<open>unitsPerEm\<close> at once, so a zero there raises
  \<^verbatim>\<open>ZeroDivisionError\<close> before anything else happens.
\<close>

definition find_font_metrics :: "TTFont \<Rightarrow> py_error + font_metrics" where
  "find_font_metrics font =
     (let upm = unitsPerEm font; os2 = OS2 font in
      if upm = 0 then Inl ZeroDivisionError
      else
       (let asc0 = source_ascent font;
            desc0 = source_descent font;
            asc_max = \<bar>of_int (ascent (hhea font)) / of_nat upm\<bar>;
            desc_max = \<bar>of_int (descent (hhea font)) / of_nat upm\<bar>;
            em = asc0 + desc0;
            asc = (if em > 0 then asc0 / em else asc0);
            desc = (if em > 0 then desc0 / em else desc0);
            from_glyph = (case glyph_x_height font of
                            Some h \<Rightarrow> \<bar>of_int h / of_nat upm\<bar>
                          | None \<Rightarrow> 1 / 2);
            xh = (case os2 of
                    Some t \<Rightarrow> if version t \<ge> 2 \<and> version t \<noteq> 0xFFFF
                              then \<bar>of_int (sxHeight t) / of_nat upm\<bar> else from_glyph
                  | None \<Rightarrow> from_glyph)
        in case cap_height font of
             Inl e \<Rightarrow> Inl e
           | Inr cap \<Rightarrow>
               Inr \<lparr> self_ascent = asc, self_descent = desc,
                     self_ascent_max = asc_max, self_descent_max = desc_max,
                     self_design_units = upm, self_xheight = xh,
                     self_baselines = [- desc, 4 / 5 * asc, 4 / 5 * xh, 1 / 2 - desc,
                                       1 / 2 * xh, asc, - desc, 0],
                     self_cap_height = cap \<rparr>))"

subsection \<open>\<^verbatim>\<open>FontTools_FontInstance.get_char_advances\<close>\<close>

text \<open>
  The ink box of a glyph:
  \<^verbatim>\<open>
      try:
          glyph = self.glyf[glyph1]
          bb = [glyph.xMin, -glyph.yMax, glyph.xMax - glyph.xMin, glyph.yMax - glyph.yMin]
          bbs[c] = [v / unitsPerEm for v in bb]
      except:
          bbs[c] = [0, 0, 0, 0]
  \<close>
  A missing \<^verbatim>\<open>glyf\<close> table, a glyph without bounds and a zero \<^verbatim>\<open>unitsPerEm\<close> all end in the
  \<^verbatim>\<open>except\<close> branch.
\<close>

definition ink_box :: "TTFont \<Rightarrow> glyph \<Rightarrow> rat list" where
  "ink_box font glyph1 =
     (case glyf font of
        None \<Rightarrow> [0, 0, 0, 0]
      | Some glyf_table \<Rightarrow>
         (case glyf_table glyph1 of
            None \<Rightarrow> [0, 0, 0, 0]
          | Some g \<Rightarrow>
              if unitsPerEm font = 0 then [0, 0, 0, 0]
              else map (\<lambda>v. of_int v / of_nat (unitsPerEm font))
                     [xMin g, - yMax g, xMax g - xMin g, yMax g - yMin g]))"

text \<open>
  \<^verbatim>\<open>
      advs = dict()
      bbs = dict()
      for c in chars:
          glyph1 = self.cmap.get(ord(c))
          if glyph1 is not None:
              if glyph1 in self.hmtx.metrics:
                  advance_width, lsb = self.hmtx.metrics[glyph1]
                  advs[c] = advance_width / unitsPerEm
              ...the ink box...
          else:
              advs[c] = None
  \<close>
\<close>

fun chars_loop ::
  "TTFont \<Rightarrow> (nat \<rightharpoonup> glyph) \<Rightarrow> uchar list \<Rightarrow> (uchar, rat option) pydict
     \<Rightarrow> (uchar, rat list) pydict
     \<Rightarrow> py_error + ((uchar, rat option) pydict \<times> (uchar, rat list) pydict)" where
  "chars_loop font cmap [] advs bbs = Inr (advs, bbs)"
| "chars_loop font cmap (c # chars) advs bbs =
     (case cmap c of
        Some glyph1 \<Rightarrow>
          (case hmtx_metrics font glyph1 of
             Some (advance_width, lsb) \<Rightarrow>
               (case py_truediv advance_width (unitsPerEm font) of
                  Inl e \<Rightarrow> Inl e
                | Inr a \<Rightarrow>
                    chars_loop font cmap chars (AList.update c (Some a) advs)
                      (AList.update c (ink_box font glyph1) bbs))
           | None \<Rightarrow>
               chars_loop font cmap chars advs (AList.update c (ink_box font glyph1) bbs))
      | None \<Rightarrow> chars_loop font cmap chars (AList.update c None advs) bbs)"

text \<open>
  The ligature table, built from \<^verbatim>\<open>GSUB\<close>:
  \<^verbatim>\<open>
      self.ligatures = dict()
      for lookup_index, lookup in enumerate(gsub_table.LookupList.Lookup):
          for subtable_index, subtable in enumerate(lookup.SubTable):
              if lookup.LookupType == 7:
                  ext_subtable = subtable.ExtSubTable
                  lookup_type = ext_subtable.LookupType
              else:
                  ext_subtable = subtable
                  lookup_type = lookup.LookupType
              if lookup_type == 4:
                  for first_glyph, ligature_set in ext_subtable.ligatures.items():
                      for ligature in ligature_set:
                          component_glyphs = [first_glyph] + ligature.Component
                          ligature_glyph = ligature.LigGlyph
                          self.ligatures[tuple(component_glyphs)] = ligature_glyph
  \<close>
  The keys are tuples of glyph names; they are looked up with pairs of \<^verbatim>\<open>cmap.get\<close>
  results, so a key is a list of optional glyph names.  Without \<^verbatim>\<open>GSUB\<close> the table is
  empty.
\<close>

type_synonym ligature_table = "glyph option list \<rightharpoonup> glyph"

definition add_ligature_set :: "glyph \<Rightarrow> ligature list \<Rightarrow> ligature_table \<Rightarrow> ligature_table" where
  "add_ligature_set first_glyph ligature_set table =
     foldl (\<lambda>t lig. t(map Some (first_glyph # Component lig) \<mapsto> LigGlyph lig))
       table ligature_set"

definition add_subtable :: "nat \<Rightarrow> gsub_subtable \<Rightarrow> ligature_table \<Rightarrow> ligature_table" where
  "add_subtable lookup_LookupType subtable table =
     (let lookup_type = (if lookup_LookupType = 7 then ExtLookupType subtable
                         else lookup_LookupType)
      in if lookup_type = 4
         then foldl (\<lambda>t item. add_ligature_set (fst item) (snd item) t) table
                (ligatures subtable)
         else table)"

definition get_ligatures :: "TTFont \<Rightarrow> ligature_table" where
  "get_ligatures font =
     (case GSUB font of
        None \<Rightarrow> Map.empty
      | Some lookups \<Rightarrow>
          foldl (\<lambda>t lookup. foldl (\<lambda>t' subtable. add_subtable (LookupType lookup) subtable t')
                               t (SubTable lookup))
            Map.empty lookups)"

text \<open>
  The scan of the kerning subtables:
  \<^verbatim>\<open>
      for subtable in self.kern.kernTables:
          kerning_value = subtable.kernTable.get((glyph1, glyph2))
          if kerning_value is not None:
              break
  \<close>
\<close>

fun kern_scan :: "kernTable list \<Rightarrow> glyph option \<times> glyph option \<Rightarrow> int option" where
  "kern_scan [] pair = None"
| "kern_scan (subtable # kernTables) pair =
     (case subtable pair of
        Some kerning_value \<Rightarrow> Some kerning_value
      | None \<Rightarrow> kern_scan kernTables pair)"

text \<open>\<^verbatim>\<open>self.hmtx.metrics[g]\<close> for a \<^verbatim>\<open>cmap.get\<close> result: \<^verbatim>\<open>None\<close> is no key.\<close>

definition metrics_getitem :: "TTFont \<Rightarrow> glyph option \<Rightarrow> py_error + (int \<times> int)" where
  "metrics_getitem font g =
     (case g of
        None \<Rightarrow> Inl KeyError
      | Some name \<Rightarrow>
         (case hmtx_metrics font name of None \<Rightarrow> Inl KeyError | Some m \<Rightarrow> Inr m))"

text \<open>
  One pair:
  \<^verbatim>\<open>
      kerning_value = None
      if (glyph1, glyph2) in self.ligatures:
          ligglyph = self.ligatures[(glyph1, glyph2)]
          awlig, lsb = self.hmtx.metrics[ligglyph]
          aw1, lsb = self.hmtx.metrics[glyph1]
          aw2, lsb = self.hmtx.metrics[glyph2]
          kerning_value = awlig - aw1 - aw2
      else:
          if self.kern is not None:
              ...the scan...
      if kerning_value is None:
          kerning_value = 0
      dadvs[(pc, c)] = kerning_value / unitsPerEm
  \<close>
\<close>

definition kerning_value ::
  "TTFont \<Rightarrow> ligature_table \<Rightarrow> glyph option \<Rightarrow> glyph option \<Rightarrow> py_error + int" where
  "kerning_value font ligs glyph1 glyph2 =
     (case ligs [glyph1, glyph2] of
        Some ligglyph \<Rightarrow>
          (case metrics_getitem font (Some ligglyph) of
             Inl e \<Rightarrow> Inl e
           | Inr (awlig, lsb) \<Rightarrow>
              (case metrics_getitem font glyph1 of
                 Inl e \<Rightarrow> Inl e
               | Inr (aw1, lsb1) \<Rightarrow>
                  (case metrics_getitem font glyph2 of
                     Inl e \<Rightarrow> Inl e
                   | Inr (aw2, lsb2) \<Rightarrow> Inr (awlig - aw1 - aw2))))
      | None \<Rightarrow>
          (case kern font of
             None \<Rightarrow> Inr 0
           | Some kernTables \<Rightarrow>
              (case kern_scan kernTables (glyph1, glyph2) of
                 None \<Rightarrow> Inr 0
               | Some k \<Rightarrow> Inr k)))"

definition pair_adjustment ::
  "TTFont \<Rightarrow> (nat \<rightharpoonup> glyph) \<Rightarrow> ligature_table \<Rightarrow> uchar \<Rightarrow> uchar \<Rightarrow> py_error + rat" where
  "pair_adjustment font cmap ligs pc c =
     (case kerning_value font ligs (cmap pc) (cmap c) of
        Inl e \<Rightarrow> Inl e
      | Inr k \<Rightarrow> py_truediv k (unitsPerEm font))"

text \<open>
  \<^verbatim>\<open>
      dadvs = dict()
      for c in pchars:
          glyph2 = self.cmap.get(ord(c))
          for pc in pchars[c]:
              glyph1 = self.cmap.get(ord(pc))
              ...
              dadvs[(pc, c)] = kerning_value / unitsPerEm
  \<close>
  \<open>pchars\<close> maps a character to the characters that precede it.
\<close>

fun pcs_loop ::
  "TTFont \<Rightarrow> (nat \<rightharpoonup> glyph) \<Rightarrow> ligature_table \<Rightarrow> uchar \<Rightarrow> uchar list
     \<Rightarrow> (uchar \<times> uchar, rat) pydict \<Rightarrow> py_error + (uchar \<times> uchar, rat) pydict" where
  "pcs_loop font cmap ligs c [] dadvs = Inr dadvs"
| "pcs_loop font cmap ligs c (pc # pcs) dadvs =
     (case pair_adjustment font cmap ligs pc c of
        Inl e \<Rightarrow> Inl e
      | Inr v \<Rightarrow> pcs_loop font cmap ligs c pcs (AList.update (pc, c) v dadvs))"

fun pchars_loop ::
  "TTFont \<Rightarrow> (nat \<rightharpoonup> glyph) \<Rightarrow> ligature_table \<Rightarrow> (uchar, uchar list) pydict
     \<Rightarrow> (uchar \<times> uchar, rat) pydict \<Rightarrow> py_error + (uchar \<times> uchar, rat) pydict" where
  "pchars_loop font cmap ligs [] dadvs = Inr dadvs"
| "pchars_loop font cmap ligs ((c, pcs) # pchars) dadvs =
     (case pcs_loop font cmap ligs c pcs dadvs of
        Inl e \<Rightarrow> Inl e
      | Inr dadvs' \<Rightarrow> pchars_loop font cmap ligs pchars dadvs')"

text \<open>
  \<^verbatim>\<open>
  def get_char_advances(self, chars, pchars):
      unitsPerEm = self.head.unitsPerEm
      ...the tables are read from self.font on first use...
      if self.cmap is None:
          # Certain symbol fonts don't have a cmap table
          return None, None, None
      ...
      return advs, dadvs, bbs
  \<close>
  The tables cached on the object are read from the same font at every call, so the
  result is a function of the font.
\<close>

definition get_char_advances ::
  "TTFont \<Rightarrow> uchar list \<Rightarrow> (uchar, uchar list) pydict
     \<Rightarrow> py_error + ((uchar, rat option) pydict option
                     \<times> (uchar \<times> uchar, rat) pydict option
                     \<times> (uchar, rat list) pydict option)" where
  "get_char_advances font chars pchars =
     (case getBestCmap font of
        None \<Rightarrow> Inr (None, None, None)
      | Some cmap \<Rightarrow>
         (case chars_loop font cmap chars [] [] of
            Inl e \<Rightarrow> Inl e
          | Inr (advs, bbs) \<Rightarrow>
             (case pchars_loop font cmap (get_ligatures font) pchars [] of
                Inl e \<Rightarrow> Inl e
              | Inr dadvs \<Rightarrow> Inr (Some advs, Some dadvs, Some bbs))))"

subsection \<open>The score of a face as the specification words it\<close>

text \<open>
  The specification describes the score of a face of a collection as three independent
  tests against the requested pattern: the fontconfig weight nearest to the face's
  weight class equals the requested weight, the fontconfig width of the face's width
  class equals the requested width, and the italic flag of the face is consistent with
  the requested slant (an italic face with an italic or oblique request, an upright face
  with a roman request).  \<open>spec_score\<close> counts the tests that hold; it follows these words
  and is compared with \<open>subface_score\<close>, which follows the code.
\<close>

definition spec_score :: "fcpattern \<Rightarrow> TTFont \<Rightarrow> nat" where
  "spec_score found tfont =
     (case OS2 tfont of
        None \<Rightarrow> 0
      | Some os2 \<Rightarrow>
          (case nearest_val OS2WGT_to_FCWGT (usWeightClass os2) of
             Inr wgt \<Rightarrow> if WEIGHT found = FcInt wgt then 1 else 0
           | Inl e \<Rightarrow> 0)
        + (case map_of OS2WDT_to_FCWDT (usWidthClass os2) of
             Some wdt \<Rightarrow> if WIDTH found = FcInt wdt then 1 else 0
           | None \<Rightarrow> 0)
        + (if font_italic tfont os2
           then (if SLANT found = FcInt SLANT_ITALIC \<or> SLANT found = FcInt SLANT_OBLIQUE
                 then 1 else 0)
           else (if SLANT found = FcInt SLANT_ROMAN then 1 else 0)))"

subsection \<open>A small configuration for the examples\<close>

text \<open>
  Three faces: Arial covers \<open>A\<close> and \<open>B\<close>, Symbola covers \<open>B\<close> and U+231E, Noto covers
  \<open>C\<close> and U+231E.  The service matches every pattern to Arial and ranks the faces in
  this order.  \<open>FontConfig_init\<close> is the object after \<^verbatim>\<open>__init__\<close>, \<open>example_cached\<close> the
  object after one call of \<^verbatim>\<open>get_true_font\<close>.
\<close>

definition example_face :: "string \<Rightarrow> nat set \<Rightarrow> fcpattern" where
  "example_face family cs =
     \<lparr> FAMILY = FcStr family, WEIGHT = FcInt 80, SLANT = FcInt 0, WIDTH = FcInt 100,
       FILE = family @ ''.ttf'', CHARSET = cs \<rparr>"

definition example_service :: matching_service where
  "example_service =
     \<lparr> font_match = (\<lambda>pat. example_face ''Arial'' {65, 66}),
       font_sort = (\<lambda>pat. [example_face ''Arial'' {65, 66},
                             example_face ''Symbola'' {66, 8990},
                             example_face ''Noto'' {67, 8990}]) \<rparr>"

definition example_css :: "nat \<Rightarrow> string \<Rightarrow> Style" where
  "example_css new_id family =
     \<lparr> style_id = new_id,
       items = [(''font-family'', [CHR 0x27] @ family @ [CHR 0x27]), (''font-weight'', ''400''),
                (''font-style'', ''normal''), (''font-stretch'', ''normal'')] \<rparr>"

definition example_style :: Style where
  "example_style =
     \<lparr> style_id = 1000,
       items = [(''font-family'', ''Arial''), (''font-weight'', ''normal''),
                (''font-style'', ''normal''), (''font-stretch'', ''normal'')] \<rparr>"

definition FontConfig_init :: FontConfig where
  "FontConfig_init =
     \<lparr> truefonts = Map.empty, truefontsfc = Map.empty, fontcharsets = Map.empty,
       next_id = 0, queries = 0 \<rparr>"

definition example_cached :: FontConfig where
  "example_cached =
     \<lparr> truefonts = [items example_style \<mapsto> Some (example_css 0 ''Arial'')],
       truefontsfc = [items example_style \<mapsto> example_face ''Arial'' {65, 66}],
       fontcharsets = [items (example_css 0 ''Arial'') \<mapsto> {65, 66}],
       next_id = 1, queries = 1 \<rparr>"

text \<open>
  A face with 2000 units per em, typographic ascender and descender in the ratio 3 to 1,
  \<^verbatim>\<open>hhea\<close> ascent and descent in the ratio 4 to 1, a ligature \<open>f_i\<close> and a kerning subtable that has entries
  for the pairs \<open>(f, i)\<close> and \<open>(A, V)\<close>.  The character \<open>x\<close> is mapped to a glyph that has
  no horizontal metrics; U+231E is not mapped.
\<close>

definition example_os2 :: os2_table where
  "example_os2 =
     \<lparr> version = 4, usWeightClass = 400, usWidthClass = 5, fsSelection = 64,
       sTypoAscender = 750, sTypoDescender = - 250, sxHeight = 1000,
       sCapHeight = Some 1400 \<rparr>"

definition example_font :: TTFont where
  "example_font =
     \<lparr> unitsPerEm = 2000,
       OS2 = Some example_os2,
       hhea = \<lparr> ascent = 2400, descent = - 600 \<rparr>,
       subfamily = Some ''Regular'',
       fvar = None,
       getBestCmap = Some [65 \<mapsto> ''A'', 86 \<mapsto> ''V'', 102 \<mapsto> ''f'', 105 \<mapsto> ''i'', 120 \<mapsto> ''x''],
       hmtx_metrics = [''A'' \<mapsto> (1300, 0), ''V'' \<mapsto> (1200, 0), ''f'' \<mapsto> (600, 20),
                       ''i'' \<mapsto> (500, 40), ''f_i'' \<mapsto> (1000, 20)],
       kern = Some [Map.empty,
                    [(Some ''f'', Some ''i'') \<mapsto> - 40, (Some ''A'', Some ''V'') \<mapsto> - 160]],
       GSUB = Some [\<lparr> LookupType = 4,
                      SubTable = [\<lparr> ExtLookupType = 0,
                                    ligatures = [(''f'', [\<lparr> Component = [''i''],
                                                            LigGlyph = ''f_i'' \<rparr>])] \<rparr>] \<rparr>],
       glyf = Some [''A'' \<mapsto> \<lparr> xMin = 0, yMin = 0, xMax = 1300, yMax = 1400 \<rparr>],
       getGlyphNames = [''A'', ''V'', ''f'', ''i'', ''f_i'', ''x''],
       glyph_x_height = None \<rparr>"

text \<open>
  A collection of three faces, and a found pattern that asks for an upright bold face of
  normal width.
\<close>

definition example_light :: TTFont where
  "example_light =
     example_font\<lparr> OS2 := Some (example_os2\<lparr> usWeightClass := 300, usWidthClass := 3 \<rparr>),
                   subfamily := Some ''Light Condensed Italic'' \<rparr>"

definition example_bold :: TTFont where
  "example_bold =
     example_font\<lparr> OS2 := Some (example_os2\<lparr> usWeightClass := 700, fsSelection := 33 \<rparr>),
                   subfamily := Some ''Bold Italic'' \<rparr>"

definition example_collection :: "TTFont list" where
  "example_collection = [example_light, example_font, example_bold]"

definition example_found :: fcpattern where
  "example_found = (example_face ''Arial'' {65, 66})\<lparr> WEIGHT := FcInt WEIGHT_BOLD \<rparr>"

definition example_lib :: fonttools where
  "example_lib =
     \<lparr> open_file = (\<lambda>fname. FontCollection example_collection),
       instantiateVariableFont = (\<lambda>font location. Inr font) \<rparr>"

text \<open>
  A service whose best match is a variable font: its weight is the range from thin to
  ultra-black.
\<close>

definition example_variable_service :: matching_service where
  "example_variable_service =
     example_service\<lparr> font_match :=
       \<lambda>pat. (example_face ''Arial'' {65, 66})\<lparr> WEIGHT := FcTuple [FcInt 0, FcInt 215] \<rparr> \<rparr>"

text \<open>
  A service whose ranked list has a variable font in the second place, between a face
  that covers \<open>A\<close> and a face that covers \<open>C\<close>.
\<close>

definition example_tuple_ranked_service :: matching_service where
  "example_tuple_ranked_service =
     \<lparr> font_match = (\<lambda>pat. example_face ''Arial'' {65}),
       font_sort = (\<lambda>pat. [example_face ''Arial'' {65},
                             (example_face ''Var'' {66})\<lparr> WEIGHT := FcTuple [FcInt 0, FcInt 215] \<rparr>,
                             example_face ''Noto'' {67}]) \<rparr>"

section \<open>Properties\<close>

subsection \<open>Unfolding the tables and the examples\<close>

lemmas FC_defs =
  WEIGHT_THIN_def WEIGHT_EXTRALIGHT_def WEIGHT_LIGHT_def WEIGHT_SEMILIGHT_def
  WEIGHT_BOOK_def WEIGHT_NORMAL_def WEIGHT_MEDIUM_def WEIGHT_SEMIBOLD_def WEIGHT_BOLD_def
  WEIGHT_ULTRABOLD_def WEIGHT_HEAVY_def WEIGHT_ULTRABLACK_def
  SLANT_ROMAN_def SLANT_ITALIC_def SLANT_OBLIQUE_def
  WIDTH_ULTRACONDENSED_def WIDTH_EXTRACONDENSED_def WIDTH_CONDENSED_def
  WIDTH_SEMICONDENSED_def WIDTH_NORMAL_def WIDTH_SEMIEXPANDED_def WIDTH_EXPANDED_def
  WIDTH_EXTRAEXPANDED_def WIDTH_ULTRAEXPANDED_def

lemmas lu_defs =
  CSSWGT_to_FCWGT_def CSSSTY_to_FCSLN_def CSSSTR_to_FCWDT_def
  FCWGT_to_CSSWGT_def FCSLN_to_CSSSTY_def FCWDT_to_CSSSTR_def

lemmas example_defs = example_face_def example_service_def example_css_def example_style_def
  FontConfig_init_def example_cached_def

lemmas eval_defs = fcfound_to_css_def nearest_val_def dict_getitem_def lu_defs FC_defs
  css_to_fc_pattern_def lookup_att_def dict_get_def remove_chr_def strip_chr_def Let_def

subsection \<open>\<^verbatim>\<open>nearest_val\<close>\<close>

lemma min_scan_inv:
  "\<forall>y\<in>set pre. key b < key y \<Longrightarrow> \<forall>y\<in>set post. key b \<le> key y \<Longrightarrow>
   \<exists>pre' post'. pre @ b # post @ xs = pre' @ min_scan key b xs # post'
      \<and> (\<forall>y\<in>set pre'. key (min_scan key b xs) < key y)
      \<and> (\<forall>y\<in>set post'. key (min_scan key b xs) \<le> key y)"
proof (induction xs arbitrary: b pre post)
  case Nil
  then show ?case by auto
next
  case (Cons y ys)
  show ?case
  proof (cases "key y < key b")
    case True
    have a: "\<forall>z\<in>set (pre @ b # post). key y < key z"
      using True Cons.prems by fastforce
    have b: "\<forall>z\<in>set ([]::'a list). key y \<le> key z" by simp
    from Cons.IH [OF a b] True show ?thesis by simp
  next
    case False
    have a: "\<forall>z\<in>set (post @ [y]). key b \<le> key z"
      using False Cons.prems by auto
    from Cons.IH [OF Cons.prems(1) a] False show ?thesis by simp
  qed
qed

lemma py_min_first_least:
  assumes "xs \<noteq> []"
  shows "\<exists>pre m post. py_min key xs = Inr m \<and> xs = pre @ m # post
      \<and> (\<forall>y\<in>set pre. key m < key y) \<and> (\<forall>y\<in>set post. key m \<le> key y)"
proof -
  from assms obtain x xs' where xs: "xs = x # xs'" by (cases xs) auto
  have "\<forall>y\<in>set ([]::'a list). key x < key y" "\<forall>y\<in>set ([]::'a list). key x \<le> key y"
    by simp_all
  from min_scan_inv [OF this, of xs'] xs show ?thesis by auto
qed

text \<open>
  Claim C6.  On a non-empty table, \<^verbatim>\<open>nearest_val\<close> returns the value stored under the key
  whose absolute difference from the query is least, and among several such keys the one
  that comes first in the table's iteration order: every key before it is strictly
  farther from the query, every key after it is at least as far.  On the table
  \<open>{100: a, 300: b, 500: c}\<close> the query 180 returns \<open>a\<close> and the query 250 returns \<open>b\<close>.
\<close>

theorem nearest_val_first_closest:
  "(dictv \<noteq> [] \<longrightarrow>
      (\<exists>pre k v post. dictv = pre @ (k, v) # post \<and> nearest_val dictv q = Inr v
         \<and> (\<forall>p\<in>set pre. \<bar>k - q\<bar> < \<bar>fst p - q\<bar>)
         \<and> (\<forall>p\<in>set post. \<bar>k - q\<bar> \<le> \<bar>fst p - q\<bar>)))
   \<and> nearest_val [(100::int, a), (300, b), (500, c)] 180 = Inr a
   \<and> nearest_val [(100::int, a), (300, b), (500, c)] 250 = Inr b"
proof (intro conjI impI)
  assume ne: "dictv \<noteq> []"
  let ?key = "\<lambda>x. \<bar>x - q\<bar>"
  from ne have "map fst dictv \<noteq> []" by simp
  from py_min_first_least [OF this, of ?key]
  obtain ks m ks' where m: "py_min ?key (map fst dictv) = Inr m"
    and split: "map fst dictv = ks @ m # ks'"
    and before: "\<forall>y\<in>set ks. ?key m < ?key y"
    and after: "\<forall>y\<in>set ks'. ?key m \<le> ?key y"
    by blast
  from split obtain pre p post where d: "dictv = pre @ p # post"
    and pre: "map fst pre = ks" and p: "fst p = m" and post: "map fst post = ks'"
    by (auto simp: map_eq_append_conv Cons_eq_map_conv)
  obtain v where pv: "p = (m, v)" using p by (cases p) auto
  have "m \<notin> fst ` set pre"
    using before pre by force
  then have "map_of dictv m = Some v"
    by (simp add: d pv map_add_def map_of_eq_None_iff [THEN iffD2])
  then have "nearest_val dictv q = Inr v"
    by (simp add: nearest_val_def m dict_getitem_def)
  moreover have "\<forall>p\<in>set pre. \<bar>m - q\<bar> < \<bar>fst p - q\<bar>"
    using before pre by force
  moreover have "\<forall>p\<in>set post. \<bar>m - q\<bar> \<le> \<bar>fst p - q\<bar>"
    using after post by force
  ultimately show "\<exists>pre k v post. dictv = pre @ (k, v) # post \<and> nearest_val dictv q = Inr v
         \<and> (\<forall>p\<in>set pre. \<bar>k - q\<bar> < \<bar>fst p - q\<bar>)
         \<and> (\<forall>p\<in>set post. \<bar>k - q\<bar> \<le> \<bar>fst p - q\<bar>)"
    using d pv by blast
next
  show "nearest_val [(100::int, a), (300, b), (500, c)] 180 = Inr a"
    by (simp add: nearest_val_def dict_getitem_def)
  show "nearest_val [(100::int, a), (300, b), (500, c)] 250 = Inr b"
    by (simp add: nearest_val_def dict_getitem_def)
qed

theorem nearest_val_first_closest_witness:
  "\<exists>pre k v post. [(100::int, ''a''), (300, ''b''), (500, ''c'')] = pre @ (k, v) # post
      \<and> nearest_val [(100::int, ''a''), (300, ''b''), (500, ''c'')] 200 = Inr v
      \<and> (\<forall>p\<in>set pre. \<bar>k - 200\<bar> < \<bar>fst p - 200\<bar>)
      \<and> (\<forall>p\<in>set post. \<bar>k - 200\<bar> \<le> \<bar>fst p - 200\<bar>)"
proof -
  have ne: "[(100::int, ''a''), (300, ''b''), (500, ''c'')] \<noteq> []" by simp
  have "[(100::int, ''a''), (300, ''b''), (500, ''c'')] \<noteq> [] \<longrightarrow>
      (\<exists>pre k v post. [(100::int, ''a''), (300, ''b''), (500, ''c'')] = pre @ (k, v) # post
         \<and> nearest_val [(100::int, ''a''), (300, ''b''), (500, ''c'')] 200 = Inr v
         \<and> (\<forall>p\<in>set pre. \<bar>k - 200\<bar> < \<bar>fst p - 200\<bar>)
         \<and> (\<forall>p\<in>set post. \<bar>k - 200\<bar> \<le> \<bar>fst p - 200\<bar>))"
    using nearest_val_first_closest
            [where dictv = "[(100::int, ''a''), (300, ''b''), (500, ''c'')]" and q = 200]
    by (rule conjunct1)
  from this ne show ?thesis by (rule mp)
qed

subsection \<open>Dictionaries\<close>

lemma dict_contains_iff: "dict_contains d k \<longleftrightarrow> k \<in> fst ` set d"
  by (simp add: dict_contains_def map_of_eq_None_iff)

lemma map_of_comp_fold:
  "map_of (foldl (\<lambda>d k. if cond k then AList.update k v d else d) acc ks) k =
     (if k \<in> set ks \<and> cond k then Some v else map_of acc k)"
  by (induction ks arbitrary: acc) (auto simp: update_conv')

lemma distinct_comp_fold:
  "distinct (map fst acc) \<Longrightarrow>
   distinct (map fst (foldl (\<lambda>d k. if cond k then AList.update k v d else d) acc ks))"
  by (induction ks arbitrary: acc) (auto simp: distinct_update)

lemma keys_comp_fold:
  "fst ` set (foldl (\<lambda>d k. if cond k then AList.update k v d else d) acc ks) =
     fst ` set acc \<union> {k \<in> set ks. cond k}"
  by (induction ks arbitrary: acc) (auto simp: dom_update)

lemma map_of_dict_comp:
  "map_of (dict_comp cond v ks) k = (if k \<in> set ks \<and> cond k then Some v else None)"
  by (simp add: dict_comp_def map_of_comp_fold)

lemma distinct_dict_comp: "distinct (map fst (dict_comp cond v ks))"
  by (simp add: dict_comp_def distinct_comp_fold)

lemma keys_dict_comp: "fst ` set (dict_comp cond v ks) = {k \<in> set ks. cond k}"
  by (simp add: dict_comp_def keys_comp_fold)

lemma dict_ok_dict_comp: "dict_ok ks (dict_comp cond v ks)"
  by (auto simp: dict_ok_def distinct_dict_comp keys_dict_comp)

lemma map_of_dict_update:
  "distinct (map fst d2) \<Longrightarrow> map_of (dict_update d d2) = map_of d ++ map_of d2"
proof (induction d2 arbitrary: d)
  case Nil
  then show ?case by (simp add: dict_update_def)
next
  case (Cons kv d2)
  obtain a b where kv: "kv = (a, b)" by (cases kv)
  from Cons.prems kv have fresh: "map_of d2 a = None"
    by (simp add: map_of_eq_None_iff)
  have "map_of (dict_update d (kv # d2)) = map_of (dict_update (AList.update a b d) d2)"
    by (simp add: dict_update_def kv)
  also have "\<dots> = map_of (AList.update a b d) ++ map_of d2"
    using Cons.prems by (intro Cons.IH) simp
  also have "\<dots> = map_of d ++ map_of (kv # d2)"
    using fresh by (auto simp: kv update_conv' map_add_def fun_eq_iff split: option.splits)
  finally show ?case .
qed

lemma distinct_dict_update:
  "distinct (map fst d) \<Longrightarrow> distinct (map fst (dict_update d d2))"
  unfolding dict_update_def
  by (induction d2 arbitrary: d) (auto simp: distinct_update)

lemma keys_dict_update: "fst ` set (dict_update d d2) = fst ` set d \<union> fst ` set d2"
  unfolding dict_update_def
  by (induction d2 arbitrary: d) (auto simp: dom_update)

lemma dict_ok_length_le: "dict_ok ks d \<Longrightarrow> length d \<le> length ks"
proof -
  assume ok: "dict_ok ks d"
  then have "length d = card (fst ` set d)"
    by (metis dict_ok_def distinct_card length_map set_map)
  also have "\<dots> \<le> card (set ks)"
    using ok by (simp add: dict_ok_def card_mono)
  also have "\<dots> \<le> length ks" by (rule card_length)
  finally show ?thesis .
qed

lemma dict_ok_missing_less:
  assumes "dict_ok ks d" "c \<in> set ks" "c \<notin> fst ` set d"
  shows "length d < length ks"
proof -
  have "length d = card (fst ` set d)"
    using assms(1) by (metis dict_ok_def distinct_card length_map set_map)
  also have "\<dots> < card (set ks)"
    using assms by (intro psubset_card_mono) (auto simp: dict_ok_def)
  also have "\<dots> \<le> length ks" by (rule card_length)
  finally show ?thesis .
qed

lemma dict_ok_full:
  assumes "dict_ok ks d" "distinct ks" "set ks \<subseteq> fst ` set d"
  shows "length d = length ks"
proof -
  have "fst ` set d = set ks" using assms by (auto simp: dict_ok_def)
  moreover have "length d = card (fst ` set d)"
    using assms(1) by (metis dict_ok_def distinct_card length_map set_map)
  ultimately show ?thesis using assms(2) by (simp add: distinct_card)
qed


lemma map_of_assign_step:
  "map_of (assign_step cs v chars d) c =
     (case map_of d c of
        Some x \<Rightarrow> Some x
      | None \<Rightarrow> if c \<in> set chars \<and> c \<in> cs then Some v else None)"
  by (auto simp: assign_step_def map_of_dict_update distinct_dict_comp map_add_def
        map_of_dict_comp dict_contains_def split: option.splits)

lemma dict_ok_assign_step:
  "dict_ok chars d \<Longrightarrow> dict_ok chars (assign_step cs v chars d)"
  by (auto simp: assign_step_def dict_ok_def distinct_dict_update keys_dict_update
        keys_dict_comp)

lemma keys_assign_step:
  "fst ` set (assign_step cs v chars d) = fst ` set d \<union> {k \<in> set chars. k \<in> cs}"
  by (auto simp: assign_step_def keys_dict_update keys_dict_comp dict_contains_iff)

lemma font_sort_loop_Cons:
  "font_sort_loop (f # found) chars d self =
     (case fcfound_to_css f (next_id self) of
        Inl e \<Rightarrow> (Inl e, self)
      | Inr None \<Rightarrow> (Inl AttributeError, self)
      | Inr (Some truefont) \<Rightarrow>
          if length (assign_step (CHARSET f) (Some truefont) chars d) = length chars
          then (Inr (assign_step (CHARSET f) (Some truefont) chars d),
                self\<lparr>next_id := next_id self + 1,
                     fontcharsets := (fontcharsets self)(items truefont \<mapsto> CHARSET f)\<rparr>)
          else font_sort_loop found chars (assign_step (CHARSET f) (Some truefont) chars d)
                 (self\<lparr>next_id := next_id self + 1,
                       fontcharsets := (fontcharsets self)(items truefont \<mapsto> CHARSET f)\<rparr>))"
  by (simp add: assign_step_def Let_def split: sum.splits option.splits)

declare font_sort_loop.simps(2) [simp del]

lemma font_sort_loop_ok:
  "font_sort_loop found chars d self = (Inr d', self') \<Longrightarrow> dict_ok chars d \<Longrightarrow>
   dict_ok chars d'"
proof (induction found arbitrary: d self)
  case Nil
  then show ?case by simp
next
  case (Cons f found)
  from Cons.prems show ?case
    by (auto simp: font_sort_loop_Cons dict_ok_assign_step
          split: sum.splits option.splits if_splits dest: Cons.IH)
qed

lemma font_sort_loop_keeps:
  "font_sort_loop found chars d self = (Inr d', self') \<Longrightarrow> map_of d c = Some v \<Longrightarrow>
   map_of d' c = Some v"
proof (induction found arbitrary: d self)
  case Nil
  then show ?case by simp
next
  case (Cons f found)
  from Cons.prems show ?case
    by (auto simp: font_sort_loop_Cons map_of_assign_step
          split: sum.splits option.splits if_splits dest: Cons.IH)
qed

lemma font_sort_loop_uncovered:
  "font_sort_loop found chars d self = (Inr d', self') \<Longrightarrow> map_of d c = None \<Longrightarrow>
   \<forall>f\<in>set found. c \<notin> CHARSET f \<Longrightarrow> map_of d' c = None"
proof (induction found arbitrary: d self)
  case Nil
  then show ?case by simp
next
  case (Cons f found)
  from Cons.prems show ?case
    by (auto simp: font_sort_loop_Cons map_of_assign_step
          split: sum.splits option.splits if_splits dest: Cons.IH)
qed

lemma font_sort_loop_first:
  "font_sort_loop found chars d self = (Inr d', self') \<Longrightarrow> dict_ok chars d \<Longrightarrow>
   c \<in> set chars \<Longrightarrow> map_of d c = None \<Longrightarrow> find (\<lambda>f. c \<in> CHARSET f) found = Some f \<Longrightarrow>
   \<exists>tf new_id. fcfound_to_css f new_id = Inr (Some tf) \<and> map_of d' c = Some (Some tf)"
proof (induction found arbitrary: d self)
  case Nil
  then show ?case by simp
next
  case (Cons g found)
  from Cons.prems(1) obtain tf where css: "fcfound_to_css g (next_id self) = Inr (Some tf)"
    by (auto simp: font_sort_loop_Cons split: sum.splits option.splits)
  let ?d1 = "assign_step (CHARSET g) (Some tf) chars d"
  let ?s1 = "self\<lparr>next_id := next_id self + 1,
                    fontcharsets := (fontcharsets self)(items tf \<mapsto> CHARSET g)\<rparr>"
  have ok1: "dict_ok chars ?d1" using Cons.prems(2) by (rule dict_ok_assign_step)
  show ?case
  proof (cases "c \<in> CHARSET g")
    case True
    then have fg: "f = g" using Cons.prems(5) by simp
    have here: "map_of ?d1 c = Some (Some tf)"
      using True Cons.prems(3,4) by (simp add: map_of_assign_step)
    have "map_of d' c = Some (Some tf)"
    proof (cases "length ?d1 = length chars")
      case True
      with Cons.prems(1) css have "d' = ?d1" by (simp add: font_sort_loop_Cons)
      with here show ?thesis by simp
    next
      case False
      with Cons.prems(1) css have "font_sort_loop found chars ?d1 ?s1 = (Inr d', self')"
        by (simp add: font_sort_loop_Cons)
      from font_sort_loop_keeps [OF this here] show ?thesis .
    qed
    with css fg show ?thesis by blast
  next
    case False
    then have none1: "map_of ?d1 c = None"
      using Cons.prems(4) by (simp add: map_of_assign_step)
    then have "c \<notin> fst ` set ?d1" by (simp add: map_of_eq_None_iff)
    from dict_ok_missing_less [OF ok1 Cons.prems(3) this]
    have "length ?d1 \<noteq> length chars" by simp
    with Cons.prems(1) css have rec: "font_sort_loop found chars ?d1 ?s1 = (Inr d', self')"
      by (simp add: font_sort_loop_Cons)
    from False Cons.prems(5) have "find (\<lambda>f. c \<in> CHARSET f) found = Some f" by simp
    from Cons.IH [OF rec ok1 Cons.prems(3) none1 this] show ?thesis .
  qed
qed

lemma font_sort_loop_stops:
  "distinct chars \<Longrightarrow> dict_ok chars d \<Longrightarrow> length d < length chars \<Longrightarrow>
   \<forall>c\<in>set chars. c \<in> fst ` set d \<or> (\<exists>f\<in>set found. c \<in> CHARSET f) \<Longrightarrow>
   font_sort_loop (found @ rest) chars d self = font_sort_loop found chars d self"
proof (induction found arbitrary: d self)
  case Nil
  then have "set chars \<subseteq> fst ` set d" by auto
  from dict_ok_full [OF Nil.prems(2,1) this] Nil.prems(3) show ?case by simp
next
  case (Cons g found)
  show ?case
  proof (cases "fcfound_to_css g (next_id self)")
    case (Inl e)
    then show ?thesis by (simp add: font_sort_loop_Cons)
  next
    case (Inr r)
    show ?thesis
    proof (cases r)
      case None
      with Inr show ?thesis by (simp add: font_sort_loop_Cons)
    next
      case (Some tf)
      let ?d1 = "assign_step (CHARSET g) (Some tf) chars d"
      have ok1: "dict_ok chars ?d1" using Cons.prems(2) by (rule dict_ok_assign_step)
      show ?thesis
      proof (cases "length ?d1 = length chars")
        case True
        with Inr Some show ?thesis by (simp add: font_sort_loop_Cons)
      next
        case False
        with dict_ok_length_le [OF ok1] have lt: "length ?d1 < length chars" by simp
        have cov: "\<forall>c\<in>set chars. c \<in> fst ` set ?d1 \<or> (\<exists>f\<in>set found. c \<in> CHARSET f)"
          using Cons.prems(4) by (auto simp: keys_assign_step)
        from Cons.IH [OF Cons.prems(1) ok1 lt cov] Inr Some False
        show ?thesis by (simp add: font_sort_loop_Cons)
      qed
    qed
  qed
qed


lemma dict_ok_Nil: "dict_ok ks []"
  by (simp add: dict_ok_def)

lemma cached_hits_ok: "cached_hits sty chars self = Inr d0 \<Longrightarrow> dict_ok chars d0"
  by (auto simp: cached_hits_def dict_ok_dict_comp dict_ok_Nil
        split: option.splits if_splits)

lemma cached_hits_map:
  "cached_hits sty chars self = Inr d0 \<Longrightarrow>
   map_of d0 c = (if c \<in> set chars \<and> primary_covers self sty c
                  then truefonts self (items sty) else None)"
  by (auto simp: cached_hits_def primary_covers_def map_of_dict_comp
        split: option.splits if_splits)

lemma map_of_fill:
  "map_of (dict_update d (dict_comp (\<lambda>c. \<not> dict_contains d c) None chars)) c =
     (case map_of d c of
        Some x \<Rightarrow> Some x
      | None \<Rightarrow> if c \<in> set chars then Some None else None)"
  by (auto simp: map_of_dict_update distinct_dict_comp map_add_def map_of_dict_comp
        dict_contains_def split: option.splits)

lemma keys_fill:
  "fst ` set (dict_update d (dict_comp (\<lambda>c. \<not> dict_contains d c) None chars)) =
     fst ` set d \<union> set chars"
  by (auto simp: keys_dict_update keys_dict_comp dict_contains_iff)

lemma get_true_font_by_char_cases:
  assumes "get_true_font_by_char svc sty chars self = (Inr d, self')"
  obtains (cached) d0 where "cached_hits sty chars self = Inr d0"
      "\<not> length d0 < length chars" "d = d0" "self' = self"
  | (ranked) d0 pat d1 where "cached_hits sty chars self = Inr d0"
      "length d0 < length chars" "css_to_fc_pattern sty = Inr pat"
      "font_sort_loop (font_sort svc pat) chars d0 (self\<lparr>queries := queries self + 1\<rparr>)
         = (Inr d1, self')"
      "d = (if length d1 < length chars
            then dict_update d1 (dict_comp (\<lambda>c. \<not> dict_contains d1 c) None chars) else d1)"
  using assms unfolding get_true_font_by_char_def Let_def
  by (auto split: sum.splits if_splits prod.splits)

lemma primary_covers_keys:
  assumes "cached_hits sty chars self = Inr d0" "c \<in> set chars"
  shows "c \<in> fst ` set d0 \<longleftrightarrow> primary_covers self sty c"
proof -
  have "c \<in> fst ` set d0 \<longleftrightarrow> map_of d0 c \<noteq> None"
    by (simp add: map_of_eq_None_iff)
  also have "\<dots> \<longleftrightarrow> primary_covers self sty c"
    using assms by (auto simp: cached_hits_map primary_covers_def split: option.splits)
  finally show ?thesis .
qed

subsection \<open>The example configuration, evaluated\<close>

lemma example_css_ok: "fcfound_to_css (example_face ''Arial'' cs) n = Inr (Some (example_css n ''Arial''))"
  by (simp add: example_defs eval_defs)

lemma example_css_ok2: "fcfound_to_css (example_face ''Symbola'' cs) n = Inr (Some (example_css n ''Symbola''))"
  by (simp add: example_defs eval_defs)

lemma example_first_call:
  "get_true_font example_service example_style FontConfig_init
     = (Inr (Some (example_css 0 ''Arial'')), example_cached)"
  by (simp add: get_true_font_def example_defs eval_defs)


lemma example_by_char:
  "get_true_font_by_char example_service example_style [65, 8990] example_cached
     = (Inr [(65, Some (example_css 0 ''Arial'')), (8990, Some (example_css 2 ''Symbola''))],
        example_cached\<lparr>next_id := 3, queries := 2,
          fontcharsets := (fontcharsets example_cached)
             (items (example_css 1 ''Arial'') \<mapsto> {65, 66},
              items (example_css 2 ''Symbola'') \<mapsto> {66, 8990})\<rparr>)"
  by (simp add: get_true_font_by_char_def cached_hits_def font_sort_loop_Cons assign_step_def
        dict_comp_def dict_update_def dict_contains_def example_defs eval_defs)


lemma example_by_char_none:
  "fst (get_true_font_by_char example_service example_style [65, 8990, 1] example_cached)
     = Inr [(65, Some (example_css 0 ''Arial'')), (8990, Some (example_css 2 ''Symbola'')),
            (1, None)]"
  by (simp add: get_true_font_by_char_def cached_hits_def font_sort_loop_Cons assign_step_def
        dict_comp_def dict_update_def dict_contains_def example_defs eval_defs)

lemma example_primary:
  "primary_covers example_cached example_style 65"
  "\<not> primary_covers example_cached example_style 8990"
  "\<not> primary_covers example_cached example_style 1"
  by (simp_all add: primary_covers_def example_defs)

lemma example_ranked:
  "ranked_faces example_service example_style =
     [example_face ''Arial'' {65, 66}, example_face ''Symbola'' {66, 8990},
      example_face ''Noto'' {67, 8990}]"
  by (simp add: ranked_faces_def example_defs eval_defs)

lemma example_find:
  "find (\<lambda>f. 8990 \<in> CHARSET f) (ranked_faces example_service example_style)
     = Some (example_face ''Symbola'' {66, 8990})"
  "find (\<lambda>f. 1 \<in> CHARSET f) (ranked_faces example_service example_style) = None"
  by (simp_all add: example_ranked) (simp_all add: example_face_def)

subsection \<open>The loops of \<^verbatim>\<open>get_char_advances\<close>\<close>

lemma chars_loop_advs:
  "chars_loop font cmap chars advs bbs = Inr (advs', bbs') \<Longrightarrow>
   map_of advs' c =
     (if c \<in> set chars then
        (case cmap c of
           None \<Rightarrow> Some None
         | Some g \<Rightarrow>
            (case hmtx_metrics font g of
               None \<Rightarrow> map_of advs c
             | Some m \<Rightarrow> Some (Some (of_int (fst m) / of_nat (unitsPerEm font)))))
      else map_of advs c)"
proof (induction chars arbitrary: advs bbs)
  case Nil
  then show ?case by simp
next
  case (Cons x chars)
  show ?case
  proof (cases "cmap x")
    case None
    with Cons.prems have "chars_loop font cmap chars (AList.update x None advs) bbs
        = Inr (advs', bbs')" by simp
    from Cons.IH [OF this] None show ?thesis
      by (auto simp: update_conv' split: option.splits)
  next
    case (Some g)
    show ?thesis
    proof (cases "hmtx_metrics font g")
      case None
      with Some Cons.prems have "chars_loop font cmap chars advs
          (AList.update x (ink_box font g) bbs) = Inr (advs', bbs')" by simp
      from Cons.IH [OF this] Some None show ?thesis
        by (auto split: option.splits)
    next
      case (Some m)
      obtain aw lsb where m: "m = (aw, lsb)" by (cases m)
      from Cons.prems \<open>cmap x = Some g\<close> Some m
      have nz: "unitsPerEm font \<noteq> 0"
        by (auto simp: py_truediv_def split: if_splits)
      with Cons.prems \<open>cmap x = Some g\<close> Some m
      have "chars_loop font cmap chars
              (AList.update x (Some (of_int aw / of_nat (unitsPerEm font))) advs)
              (AList.update x (ink_box font g) bbs) = Inr (advs', bbs')"
        by (simp add: py_truediv_def)
      from Cons.IH [OF this] \<open>cmap x = Some g\<close> Some m show ?thesis
        by (auto simp: update_conv' split: option.splits)
    qed
  qed
qed

lemma chars_loop_bbs:
  "chars_loop font cmap chars advs bbs = Inr (advs', bbs') \<Longrightarrow>
   map_of bbs' c =
     (if c \<in> set chars then
        (case cmap c of None \<Rightarrow> map_of bbs c | Some g \<Rightarrow> Some (ink_box font g))
      else map_of bbs c)"
proof (induction chars arbitrary: advs bbs)
  case Nil
  then show ?case by simp
next
  case (Cons x chars)
  from Cons.prems show ?case
    by (auto simp: update_conv' split: option.splits sum.splits prod.splits
          dest!: Cons.IH)
qed

lemma get_char_advances_cases:
  assumes "get_char_advances font chars pchars = Inr (Some advs, Some dadvs, Some bbs)"
  obtains cmap where "getBestCmap font = Some cmap"
    "chars_loop font cmap chars [] [] = Inr (advs, bbs)"
    "pchars_loop font cmap (get_ligatures font) pchars [] = Inr dadvs"
  using assms unfolding get_char_advances_def
  by (auto split: option.splits sum.splits prod.splits)

lemma pcs_loop_keeps:
  "pcs_loop font cmap ligs c pcs dadvs = Inr dadvs' \<Longrightarrow>
   map_of dadvs' (p, q) =
     (if q = c \<and> p \<in> set pcs
      then (case pair_adjustment font cmap ligs p c of Inr v \<Rightarrow> Some v | Inl e \<Rightarrow> None)
      else map_of dadvs (p, q))"
proof (induction pcs arbitrary: dadvs)
  case Nil
  then show ?case by simp
next
  case (Cons x pcs)
  from Cons.prems obtain v where v: "pair_adjustment font cmap ligs x c = Inr v"
    and rec: "pcs_loop font cmap ligs c pcs (AList.update (x, c) v dadvs) = Inr dadvs'"
    by (auto split: sum.splits)
  from Cons.IH [OF rec] v show ?case
    by (auto simp: update_conv')
qed

lemma pcs_loop_defined:
  "pcs_loop font cmap ligs c pcs dadvs = Inr dadvs' \<Longrightarrow> p \<in> set pcs \<Longrightarrow>
   \<exists>v. pair_adjustment font cmap ligs p c = Inr v"
  by (induction pcs arbitrary: dadvs) (auto split: sum.splits)

lemma pchars_loop_pair:
  "pchars_loop font cmap ligs pchars dadvs = Inr dadvs' \<Longrightarrow>
   (c, pcs) \<in> set pchars \<Longrightarrow> pc \<in> set pcs \<Longrightarrow>
   \<exists>v. pair_adjustment font cmap ligs pc c = Inr v \<and> map_of dadvs' (pc, c) = Some v"
proof (induction pchars arbitrary: dadvs)
  case Nil
  then show ?case by simp
next
  case (Cons item pchars)
  obtain c0 pcs0 where item: "item = (c0, pcs0)" by (cases item)
  from Cons.prems(1) item obtain d1 where
    inner: "pcs_loop font cmap ligs c0 pcs0 dadvs = Inr d1"
    and rec: "pchars_loop font cmap ligs pchars d1 = Inr dadvs'"
    by (auto split: sum.splits)
  show ?case
  proof (cases "(c, pcs) \<in> set pchars")
    case True
    from Cons.IH [OF rec True Cons.prems(3)] show ?thesis .
  next
    case False
    with Cons.prems(2) item have eq: "c0 = c" "pcs0 = pcs" by auto
    from pcs_loop_defined [OF inner] Cons.prems(3) eq
    obtain v where v: "pair_adjustment font cmap ligs pc c = Inr v" by blast
    from pcs_loop_keeps [OF inner, of pc c] v eq Cons.prems(3)
    have here: "map_of d1 (pc, c) = Some v" by simp
    have later: "map_of dadvs' (pc, c) = Some v"
      using rec here v
    proof (induction pchars arbitrary: d1)
      case Nil
      then show ?case by simp
    next
      case (Cons it rest)
      obtain c1 pcs1 where it: "it = (c1, pcs1)" by (cases it)
      from Cons.prems(1) it obtain d2 where
        i2: "pcs_loop font cmap ligs c1 pcs1 d1 = Inr d2"
        and r2: "pchars_loop font cmap ligs rest d2 = Inr dadvs'"
        by (auto split: sum.splits)
      from pcs_loop_keeps [OF i2, of pc c] Cons.prems(2,3)
      have "map_of d2 (pc, c) = Some v" by (auto split: sum.splits)
      from Cons.IH [OF r2 this Cons.prems(3)] show ?case .
    qed
    with v show ?thesis by blast
  qed
qed

lemma kern_scan_find:
  "kern_scan kernTables pair =
     (case find (\<lambda>t. t pair \<noteq> None) kernTables of None \<Rightarrow> None | Some t \<Rightarrow> t pair)"
  by (induction kernTables) (auto split: option.splits)

subsection \<open>The loop of \<^verbatim>\<open>font_from_fc\<close>\<close>

lemma subface_score_le: "subface_score found tfont = Inr n \<Longrightarrow> n \<le> 3"
proof -
  assume s: "subface_score found tfont = Inr n"
  then obtain ms where ms: "matches found tfont = Inr ms" and n: "n = length (filter id ms)"
    by (auto simp: subface_score_def split: sum.splits)
  from ms have "length ms = 3"
    unfolding matches_def Let_def by (auto split: option.splits sum.splits)
  moreover have "length (filter id ms) \<le> length ms" by (rule length_filter_le)
  ultimately show ?thesis using n by simp
qed

lemma collection_loop_no_perfect:
  "\<forall>t\<in>set fonts. subface_score found t = Inr (sc t) \<and> sc t \<noteq> 3 \<Longrightarrow>
   collection_loop found fonts acc = Inr (acc @ map sc fonts, None)"
  by (induction fonts arbitrary: acc) auto

lemma collection_loop_perfect:
  "\<forall>t\<in>set pre. subface_score found t = Inr (sc t) \<and> sc t \<noteq> 3 \<Longrightarrow>
   subface_score found t = Inr 3 \<Longrightarrow>
   collection_loop found (pre @ t # post) acc = Inr (acc @ map sc pre @ [3], Some t)"
  by (induction pre arbitrary: acc) auto

lemma py_max_Max: "xs \<noteq> [] \<Longrightarrow> py_max xs = Inr (Max (set xs))"
proof (cases xs)
  case Nil
  assume "xs \<noteq> []"
  with Nil show ?thesis by simp
next
  case (Cons x ys)
  show ?thesis unfolding Cons py_max.simps Max.set_eq_fold ..
qed

lemma filter_zip_map:
  "map fst (filter (\<lambda>p. snd p = m) (zip xs (map f xs))) = filter (\<lambda>x. f x = m) xs"
  by (induction xs) auto

lemma filter_first:
  "\<exists>x\<in>set xs. P x \<Longrightarrow>
   \<exists>pre t post. xs = pre @ t # post \<and> P t \<and> (\<forall>u\<in>set pre. \<not> P u)
      \<and> filter P xs = t # filter P post"
proof -
  assume "\<exists>x\<in>set xs. P x"
  from split_list_first_prop [OF this] obtain pre t post where
    s: "xs = pre @ t # post" "P t" "\<forall>u\<in>set pre. \<not> P u" by blast
  then have "filter P xs = t # filter P post" by simp
  with s show ?thesis by blast
qed

lemma select_subface_first_best:
  assumes ne: "fonts \<noteq> []"
    and sc: "\<forall>t\<in>set fonts. subface_score found t = Inr (sc t)"
  shows "\<exists>pre t post. fonts = pre @ t # post \<and> select_subface found fonts = Inr t
      \<and> (\<forall>u\<in>set pre. sc u < sc t) \<and> (\<forall>u\<in>set post. sc u \<le> sc t)"
proof -
  have le3: "sc t \<le> 3" if "t \<in> set fonts" for t
  proof -
    from sc that have "subface_score found t = Inr (sc t)" by simp
    then show ?thesis by (rule subface_score_le)
  qed
  show ?thesis
  proof (cases "\<exists>t\<in>set fonts. sc t = 3")
    case True
    from split_list_first_prop [OF True] obtain pre t post where
      s: "fonts = pre @ t # post" "sc t = 3" "\<forall>u\<in>set pre. sc u \<noteq> 3" by blast
    have pre: "\<forall>u\<in>set pre. subface_score found u = Inr (sc u) \<and> sc u \<noteq> 3"
      using sc s(1,3) by simp
    have t3: "subface_score found t = Inr 3" using sc s(1,2) by simp
    have loop: "collection_loop found fonts [] = Inr (map sc pre @ [3], Some t)"
      using collection_loop_perfect [OF pre t3, of post "[]"] s(1) by simp
    have pre_lt: "sc u < 3" if "u \<in> set pre" for u
    proof -
      from that s(1) have "u \<in> set fonts" by simp
      from s(3) that have "sc u \<noteq> 3" by blast
      with le3 [OF \<open>u \<in> set fonts\<close>] show ?thesis by linarith
    qed
    have "Max (set (map sc pre @ [3])) = 3"
    proof (rule Max_eqI)
      show "finite (set (map sc pre @ [3]))" by simp
      show "y \<le> 3" if "y \<in> set (map sc pre @ [3])" for y
      proof -
        from that consider u where "u \<in> set pre" "y = sc u" | "y = 3" by auto
        then show ?thesis
        proof cases
          case 1
          with pre_lt [of u] show ?thesis by simp
        next
          case 2
          then show ?thesis by simp
        qed
      qed
      show "3 \<in> set (map sc pre @ [3])" by simp
    qed
    then have "py_max (map sc pre @ [3]) = Inr 3"
      by (simp add: py_max_Max)
    with loop have sel: "select_subface found fonts = Inr t"
      by (simp add: select_subface_def)
    have a: "\<forall>u\<in>set pre. sc u < sc t"
      using pre_lt s(2) by simp
    have b: "\<forall>u\<in>set post. sc u \<le> sc t"
    proof
      fix u assume "u \<in> set post"
      then have "u \<in> set fonts" using s(1) by simp
      from le3 [OF this] s(2) show "sc u \<le> sc t" by simp
    qed
    from s(1) sel a b show ?thesis by blast
  next
    case False
    define mx where "mx = Max (set (map sc fonts))"
    have all: "\<forall>t\<in>set fonts. subface_score found t = Inr (sc t) \<and> sc t \<noteq> 3"
      using sc False by simp
    have loop: "collection_loop found fonts [] = Inr (map sc fonts, None)"
      using collection_loop_no_perfect [OF all, of "[]"] by simp
    have mx: "py_max (map sc fonts) = Inr mx"
      using ne by (simp add: py_max_Max mx_def)
    have "mx \<in> set (map sc fonts)"
      unfolding mx_def using ne by (intro Max_in) simp_all
    then have ex: "\<exists>t\<in>set fonts. sc t = mx" by auto
    have upper: "sc u \<le> mx" if "u \<in> set fonts" for u
      unfolding mx_def using that by (intro Max_ge) simp_all
    from ex obtain t0 where t0: "t0 \<in> set fonts" "sc t0 = mx" by blast
    from False t0 have "mx \<noteq> 3" by blast
    with le3 [OF t0(1)] t0(2) have lt3: "mx < 3" by linarith
    from filter_first [OF ex] obtain pre t post where
      s: "fonts = pre @ t # post" "sc t = mx" "\<forall>u\<in>set pre. sc u \<noteq> mx"
      and f: "filter (\<lambda>x. sc x = mx) fonts = t # filter (\<lambda>x. sc x = mx) post"
      by blast
    have sel: "select_subface found fonts = Inr t"
      using loop mx lt3 f by (simp add: select_subface_def filter_zip_map)
    have a: "\<forall>u\<in>set pre. sc u < sc t"
    proof
      fix u assume u: "u \<in> set pre"
      then have "u \<in> set fonts" using s(1) by simp
      from s(3) u have "sc u \<noteq> mx" by blast
      with upper [OF \<open>u \<in> set fonts\<close>] s(2) show "sc u < sc t" by linarith
    qed
    have b: "\<forall>u\<in>set post. sc u \<le> sc t"
    proof
      fix u assume "u \<in> set post"
      then have "u \<in> set fonts" using s(1) by simp
      from upper [OF this] s(2) show "sc u \<le> sc t" by simp
    qed
    from s(1) sel a b show ?thesis by blast
  qed
qed

subsection \<open>The score of the code and the score of the specification\<close>

lemma min_scan_mem: "min_scan key b xs \<in> set (b # xs)"
  by (induction xs arbitrary: b) auto

lemma nearest_val_returns: "dictv \<noteq> [] \<Longrightarrow> \<exists>v. nearest_val dictv q = Inr v"
proof -
  assume "dictv \<noteq> []"
  then obtain p ps where d: "dictv = p # ps" by (cases dictv) auto
  let ?m = "min_scan (\<lambda>x. \<bar>x - q\<bar>) (fst p) (map fst ps)"
  have "?m \<in> fst ` set dictv"
    using min_scan_mem [of "\<lambda>x. \<bar>x - q\<bar>" "fst p" "map fst ps"] by (simp add: d)
  then obtain v where "map_of dictv ?m = Some v"
    by (cases "map_of dictv ?m") (auto simp: map_of_eq_None_iff)
  then show ?thesis
    by (simp add: nearest_val_def dict_getitem_def d del: map_of.simps)
qed

lemma OS2WDT_to_FCWDT_dom:
  assumes "1 \<le> w" "w \<le> 9"
  shows "\<exists>wdt. map_of OS2WDT_to_FCWDT w = Some wdt"
proof -
  from assms
  have "w = 1 \<or> w = 2 \<or> w = 3 \<or> w = 4 \<or> w = 5 \<or> w = 6 \<or> w = 7 \<or> w = 8 \<or> w = 9"
    by arith
  then show ?thesis by (auto simp: OS2WDT_to_FCWDT_def)
qed

lemma subface_score_spec:
  assumes os2: "OS2 tfont = Some os2" and w: "1 \<le> usWidthClass os2" "usWidthClass os2 \<le> 9"
  shows "subface_score found tfont = Inr (spec_score found tfont)"
proof -
  have "OS2WGT_to_FCWGT \<noteq> []" by (simp add: OS2WGT_to_FCWGT_def)
  from nearest_val_returns [OF this] obtain wgt where
    wgt: "nearest_val OS2WGT_to_FCWGT (usWeightClass os2) = Inr wgt" by blast
  from OS2WDT_to_FCWDT_dom [OF w] obtain wdt where
    wdt: "map_of OS2WDT_to_FCWDT (usWidthClass os2) = Some wdt" by blast
  show ?thesis
    unfolding subface_score_def matches_def spec_score_def Let_def
    by (simp add: os2 wgt wdt dict_getitem_def)
qed

subsection \<open>The example face, evaluated\<close>

lemma example_font_sel:
  "unitsPerEm example_font = 2000"
  "OS2 example_font = Some example_os2"
  "hhea example_font = \<lparr> ascent = 2400, descent = - 600 \<rparr>"
  "subfamily example_font = Some ''Regular''"
  "getBestCmap example_font
     = Some [65 \<mapsto> ''A'', 86 \<mapsto> ''V'', 102 \<mapsto> ''f'', 105 \<mapsto> ''i'', 120 \<mapsto> ''x'']"
  "hmtx_metrics example_font
     = [''A'' \<mapsto> (1300, 0), ''V'' \<mapsto> (1200, 0), ''f'' \<mapsto> (600, 20), ''i'' \<mapsto> (500, 40),
        ''f_i'' \<mapsto> (1000, 20)]"
  "kern example_font
     = Some [Map.empty, [(Some ''f'', Some ''i'') \<mapsto> - 40, (Some ''A'', Some ''V'') \<mapsto> - 160]]"
  "glyf example_font = Some [''A'' \<mapsto> \<lparr> xMin = 0, yMin = 0, xMax = 1300, yMax = 1400 \<rparr>]"
  "getGlyphNames example_font = [''A'', ''V'', ''f'', ''i'', ''f_i'', ''x'']"
  "glyph_x_height example_font = None"
  by (simp_all add: example_font_def)

lemma example_os2_sel:
  "version example_os2 = 4" "usWeightClass example_os2 = 400" "usWidthClass example_os2 = 5"
  "fsSelection example_os2 = 64" "sTypoAscender example_os2 = 750"
  "sTypoDescender example_os2 = - 250" "sxHeight example_os2 = 1000"
  "sCapHeight example_os2 = Some 1400"
  by (simp_all add: example_os2_def)

lemma example_cap_height: "cap_height example_font = Inr (7 / 10)"
  by (simp add: cap_height_def py_truediv_def example_font_sel example_os2_sel)

lemma example_metrics:
  "find_font_metrics example_font =
     Inr \<lparr> self_ascent = 3 / 4, self_descent = 1 / 4, self_ascent_max = 6 / 5,
           self_descent_max = 3 / 10, self_design_units = 2000, self_xheight = 1 / 2,
           self_baselines = [- (1 / 4), 3 / 5, 2 / 5, 1 / 4, 1 / 4, 3 / 4, - (1 / 4), 0],
           self_cap_height = 7 / 10 \<rparr>"
  by (simp add: find_font_metrics_def source_ascent_def source_descent_def
        example_cap_height example_font_sel example_os2_sel Let_def)

lemma example_metrics_hhea:
  "find_font_metrics (example_font\<lparr> OS2 := None \<rparr>) =
     Inr \<lparr> self_ascent = 4 / 5, self_descent = 1 / 5, self_ascent_max = 6 / 5,
           self_descent_max = 3 / 10, self_design_units = 2000, self_xheight = 1 / 2,
           self_baselines = [- (1 / 5), 16 / 25, 2 / 5, 3 / 10, 1 / 4, 4 / 5, - (1 / 5), 0],
           self_cap_height = 1 \<rparr>"
  by (simp add: find_font_metrics_def source_ascent_def source_descent_def cap_height_def
        example_font_sel Let_def)

lemmas example_cmap = example_font_sel(5)

lemma example_advances:
  "get_char_advances example_font [65, 120, 8990] []
     = Inr (Some [(65, Some (13 / 20)), (8990, None)], Some [],
            Some [(65, [0, - (7 / 10), 13 / 20, 7 / 10]), (120, [0, 0, 0, 0])])"
  by (simp add: get_char_advances_def py_truediv_def ink_box_def example_font_sel)

lemma example_ligatures:
  "get_ligatures example_font [Some ''f'', Some ''i''] = Some ''f_i''"
  "get_ligatures example_font [Some ''A'', Some ''V''] = None"
  "get_ligatures example_font [Some ''V'', Some ''A''] = None"
  by (simp_all add: get_ligatures_def add_subtable_def add_ligature_set_def example_font_def)

lemma example_kerning:
  "kerning_value example_font (get_ligatures example_font) (Some ''f'') (Some ''i'')
     = Inr (- 100)"
  "kerning_value example_font (get_ligatures example_font) (Some ''A'') (Some ''V'')
     = Inr (- 160)"
  "kerning_value example_font (get_ligatures example_font) (Some ''V'') (Some ''A'') = Inr 0"
  by (simp_all add: kerning_value_def example_ligatures metrics_getitem_def example_font_sel)

lemma example_pairs:
  "get_char_advances example_font [] [(105, [102]), (86, [65]), (65, [86])]
     = Inr (Some [], Some [((102, 105), - (1 / 20)), ((65, 86), - (2 / 25)), ((86, 65), 0)],
            Some [])"
  by (simp add: get_char_advances_def pair_adjustment_def example_kerning py_truediv_def
        example_font_sel)

lemma example_found_sel:
  "WEIGHT example_found = FcInt 200" "SLANT example_found = FcInt 0"
  "WIDTH example_found = FcInt 100" "FILE example_found = ''Arial.ttf''"
  by (simp_all add: example_found_def example_face_def WEIGHT_BOLD_def)

lemma example_light_sel:
  "OS2 example_light = Some (example_os2\<lparr> usWeightClass := 300, usWidthClass := 3 \<rparr>)"
  "subfamily example_light = Some ''Light Condensed Italic''"
  by (simp_all add: example_light_def)

lemma example_bold_sel:
  "OS2 example_bold = Some (example_os2\<lparr> usWeightClass := 700, fsSelection := 33 \<rparr>)"
  "subfamily example_bold = Some ''Bold Italic''"
  by (simp_all add: example_bold_def)

lemma example_italic:
  "\<not> font_italic example_font example_os2"
  "font_italic example_light (example_os2\<lparr> usWeightClass := 300, usWidthClass := 3 \<rparr>)"
  "font_italic example_bold (example_os2\<lparr> usWeightClass := 700, fsSelection := 33 \<rparr>)"
  by (simp_all add: font_italic_def lower_def example_font_sel example_os2_sel
        example_light_sel example_bold_sel)

lemma example_subface_scores:
  "subface_score example_found example_light = Inr 0"
  "subface_score example_found example_font = Inr 2"
  "subface_score example_found example_bold = Inr 2"
  by (simp_all add: subface_score_def matches_def example_italic example_found_sel
        dict_getitem_def nearest_val_def OS2WGT_to_FCWGT_def OS2WDT_to_FCWDT_def FC_defs
        example_font_sel example_os2_sel example_light_sel example_bold_sel)

lemma example_spec_scores:
  "spec_score example_found example_light = 0"
  "spec_score example_found example_font = 2"
  "spec_score example_found example_bold = 2"
  by (simp_all add: spec_score_def example_italic example_found_sel
        dict_getitem_def nearest_val_def OS2WGT_to_FCWGT_def OS2WDT_to_FCWDT_def FC_defs
        example_font_sel example_os2_sel example_light_sel example_bold_sel)

lemma example_choice: "font_from_fc example_lib example_found = Inr example_font"
  by (simp add: font_from_fc_def select_subface_def example_lib_def example_collection_def
        example_subface_scores)

subsection \<open>When the calls return\<close>

text \<open>
  The properties below are about calls that return.  Sufficient conditions:
  \<^verbatim>\<open>get_true_font_by_char\<close> returns when the first phase does, the pattern can be built and
  every ranked face has a CSS descriptor; \<^verbatim>\<open>get_char_advances\<close> returns on a face with a
  character map and a non-zero \<^verbatim>\<open>unitsPerEm\<close> when no requested pair is a ligature.
\<close>

lemma font_sort_loop_returns:
  "\<forall>f\<in>set found. \<forall>n. \<exists>tf. fcfound_to_css f n = Inr (Some tf) \<Longrightarrow>
   \<exists>d' self'. font_sort_loop found chars d self = (Inr d', self')"
proof (induction found arbitrary: d self)
  case Nil
  then show ?case by simp
next
  case (Cons f found)
  from Cons.prems obtain tf where tf: "fcfound_to_css f (next_id self) = Inr (Some tf)"
    by (meson list.set_intros(1))
  from Cons.prems have rest: "\<forall>f\<in>set found. \<forall>n. \<exists>tf. fcfound_to_css f n = Inr (Some tf)"
    by simp
  from Cons.IH [OF rest] tf show ?case
    by (simp add: font_sort_loop_Cons)
qed

lemma get_true_font_by_char_returns:
  assumes "cached_hits sty chars self = Inr d0"
    and "css_to_fc_pattern sty = Inr pat"
    and "\<forall>f\<in>set (font_sort svc pat). \<forall>n. \<exists>tf. fcfound_to_css f n = Inr (Some tf)"
  shows "\<exists>d self'. get_true_font_by_char svc sty chars self = (Inr d, self')"
proof -
  from font_sort_loop_returns [OF assms(3)] obtain d1 self1 where
    "font_sort_loop (font_sort svc pat) chars d0 (self\<lparr>queries := queries self + 1\<rparr>)
       = (Inr d1, self1)" by blast
  with assms(1,2) show ?thesis
    by (simp add: get_true_font_by_char_def)
qed

lemma chars_loop_returns:
  "unitsPerEm font \<noteq> 0 \<Longrightarrow> \<exists>r. chars_loop font cmap chars advs bbs = Inr r"
  by (induction chars arbitrary: advs bbs)
     (auto simp: py_truediv_def split: option.splits)

lemma pcs_loop_returns:
  "\<forall>pc\<in>set pcs. \<exists>v. pair_adjustment font cmap ligs pc c = Inr v \<Longrightarrow>
   \<exists>r. pcs_loop font cmap ligs c pcs dadvs = Inr r"
  by (induction pcs arbitrary: dadvs) auto

lemma pchars_loop_returns:
  "\<forall>item\<in>set pchars. \<forall>pc\<in>set (snd item).
      \<exists>v. pair_adjustment font cmap ligs pc (fst item) = Inr v \<Longrightarrow>
   \<exists>r. pchars_loop font cmap ligs pchars dadvs = Inr r"
proof (induction pchars arbitrary: dadvs)
  case Nil
  then show ?case by simp
next
  case (Cons item pchars)
  obtain c pcs where item: "item = (c, pcs)" by (cases item)
  from Cons.prems item
  have "\<forall>pc\<in>set pcs. \<exists>v. pair_adjustment font cmap ligs pc c = Inr v" by simp
  from pcs_loop_returns [OF this] obtain d1 where
    d1: "pcs_loop font cmap ligs c pcs dadvs = Inr d1" by blast
  from Cons.prems have "\<forall>item\<in>set pchars. \<forall>pc\<in>set (snd item).
      \<exists>v. pair_adjustment font cmap ligs pc (fst item) = Inr v" by simp
  from Cons.IH [OF this] d1 item show ?case by simp
qed

lemma pair_adjustment_no_ligature:
  "unitsPerEm font \<noteq> 0 \<Longrightarrow> ligs [cmap pc, cmap c] = None \<Longrightarrow>
   \<exists>v. pair_adjustment font cmap ligs pc c = Inr v"
  by (simp add: pair_adjustment_def kerning_value_def py_truediv_def
        split: option.splits)

lemma get_char_advances_returns:
  assumes "unitsPerEm font \<noteq> 0" and "getBestCmap font = Some cmap"
    and "\<forall>item\<in>set pchars. \<forall>pc\<in>set (snd item).
           get_ligatures font [cmap pc, cmap (fst item)] = None"
  shows "\<exists>advs dadvs bbs.
           get_char_advances font chars pchars = Inr (Some advs, Some dadvs, Some bbs)"
proof -
  from chars_loop_returns [OF assms(1)] obtain advs bbs where
    a: "chars_loop font cmap chars [] [] = Inr (advs, bbs)" by fastforce
  have "\<forall>item\<in>set pchars. \<forall>pc\<in>set (snd item).
      \<exists>v. pair_adjustment font cmap (get_ligatures font) pc (fst item) = Inr v"
    using assms(1,3) pair_adjustment_no_ligature by blast
  from pchars_loop_returns [OF this] obtain dadvs where
    "pchars_loop font cmap (get_ligatures font) pchars [] = Inr dadvs" by blast
  with a assms(2) show ?thesis by (simp add: get_char_advances_def)
qed

subsection \<open>\<^verbatim>\<open>get_true_font\<close> is idempotent\<close>

text \<open>
  Claim C3.  When a call of \<^verbatim>\<open>get_true_font\<close> has returned a face, a second call with a
  style whose \<^verbatim>\<open>items()\<close> tuple is the same (the style may be another object) returns
  the very same object, identity included, and leaves the whole state as it is: the
  query counter does not move and no new \<^verbatim>\<open>Style\<close> is created.  The second call does
  not depend on the matching service at all.
\<close>

theorem get_true_font_idempotent:
  assumes "get_true_font svc sty self = (Inr face, self1)" and "items sty2 = items sty"
  shows "get_true_font svc2 sty2 self1 = (Inr face, self1)"
proof -
  from assms(1) have "truefonts self1 (items sty) = Some face"
    unfolding get_true_font_def Let_def
    by (auto split: option.splits sum.splits)
  then show ?thesis by (simp add: get_true_font_def assms(2))
qed

theorem get_true_font_idempotent_witness:
  "\<exists>face self1.
      get_true_font example_service example_style FontConfig_init = (Inr face, self1)
    \<and> get_true_font (example_service\<lparr>font_match := \<lambda>pat. example_face ''Noto'' {}\<rparr>)
         (example_style\<lparr>style_id := 1001\<rparr>) self1 = (Inr face, self1)"
proof -
  have same: "items (example_style\<lparr>style_id := 1001\<rparr>) = items example_style" by simp
  from get_true_font_idempotent [OF example_first_call same] example_first_call
  show ?thesis by blast
qed

subsection \<open>\<^verbatim>\<open>get_true_font_by_char\<close>: the first covering face\<close>

text \<open>
  Where a call of \<^verbatim>\<open>get_true_font_by_char\<close> on duplicate-free characters returns a
  dictionary \<open>d\<close>, it is the dictionary that the specification describes.  A character
  that the cached primary face covers is bound to the cached face.  Every other character
  is bound to the \<^verbatim>\<open>Style\<close> built from the first face of the ranked list whose coverage set
  holds it, and to \<^verbatim>\<open>None\<close> exactly when no face of the ranked list covers it.  The walk
  stops early: when the primary face and the first \<open>n\<close> ranked faces cover all characters,
  the call gives the same dictionary and the same state as with a service whose ranked
  list is cut after \<open>n\<close> faces, so no later face is looked at.
\<close>

lemma get_true_font_by_char_returning:
  assumes dist: "distinct chars"
    and run: "get_true_font_by_char svc sty chars self = (Inr d, self')"
  shows "(\<forall>c\<in>set chars.
            if primary_covers self sty c then map_of d c = truefonts self (items sty)
            else (case find (\<lambda>f. c \<in> CHARSET f) (ranked_faces svc sty) of
                    None \<Rightarrow> map_of d c = Some None
                  | Some f \<Rightarrow> \<exists>tf new_id. fcfound_to_css f new_id = Inr (Some tf)
                                \<and> map_of d c = Some (Some tf)))
       \<and> (\<forall>n. (\<forall>c\<in>set chars. primary_covers self sty c
                    \<or> (\<exists>f\<in>set (take n (ranked_faces svc sty)). c \<in> CHARSET f)) \<longrightarrow>
               get_true_font_by_char (svc\<lparr>font_sort := \<lambda>p. take n (font_sort svc p)\<rparr>)
                 sty chars self = (Inr d, self'))"
  using run
proof (cases rule: get_true_font_by_char_cases)
  case (cached d0)
  have all: "primary_covers self sty c" if "c \<in> set chars" for c
  proof (rule ccontr)
    assume "\<not> primary_covers self sty c"
    with primary_covers_keys [OF cached(1) that] have "c \<notin> fst ` set d0" by simp
    from dict_ok_missing_less [OF cached_hits_ok [OF cached(1)] that this] cached(2)
    show False by simp
  qed
  have "\<forall>c\<in>set chars. map_of d c = truefonts self (items sty)"
    using all cached(1,3) by (simp add: cached_hits_map)
  moreover have "get_true_font_by_char svc2 sty chars self = (Inr d, self')" for svc2
    using cached by (simp add: get_true_font_by_char_def)
  ultimately show ?thesis using all by simp
next
  case (ranked d0 pat d1)
  let ?found = "font_sort svc pat"
  let ?s1 = "self\<lparr>queries := queries self + 1\<rparr>"
  have rf: "ranked_faces svc sty = ?found" by (simp add: ranked_faces_def ranked(3))
  have ok0: "dict_ok chars d0" by (rule cached_hits_ok [OF ranked(1)])
  have ok1: "dict_ok chars d1" by (rule font_sort_loop_ok [OF ranked(4) ok0])
  have fill: "map_of d c = (case map_of d1 c of Some x \<Rightarrow> Some x
                | None \<Rightarrow> if c \<in> set chars then Some None else None)"
    if "c \<in> set chars" for c
  proof (cases "length d1 < length chars")
    case True
    then show ?thesis by (simp add: ranked(5) map_of_fill)
  next
    case False
    have "c \<in> fst ` set d1"
      using dict_ok_missing_less [OF ok1 that] False by blast
    then obtain x where "map_of d1 c = Some x"
      by (cases "map_of d1 c") (auto simp: map_of_eq_None_iff)
    with False show ?thesis by (simp add: ranked(5))
  qed
  have part1: "if primary_covers self sty c then map_of d c = truefonts self (items sty)
      else (case find (\<lambda>f. c \<in> CHARSET f) (ranked_faces svc sty) of
              None \<Rightarrow> map_of d c = Some None
            | Some f \<Rightarrow> \<exists>tf new_id. fcfound_to_css f new_id = Inr (Some tf)
                          \<and> map_of d c = Some (Some tf))"
    if c: "c \<in> set chars" for c
  proof (cases "primary_covers self sty c")
    case True
    then obtain v where v: "truefonts self (items sty) = Some v"
      by (auto simp: primary_covers_def split: option.splits)
    from True c have "map_of d0 c = Some v" by (simp add: cached_hits_map [OF ranked(1)] v)
    from font_sort_loop_keeps [OF ranked(4) this] have "map_of d1 c = Some v" .
    with True v show ?thesis by (simp add: fill [OF c])
  next
    case False
    then have none0: "map_of d0 c = None" by (simp add: cached_hits_map [OF ranked(1)])
    show ?thesis
    proof (cases "find (\<lambda>f. c \<in> CHARSET f) ?found")
      case None
      then have "\<forall>f\<in>set ?found. c \<notin> CHARSET f" by (simp add: find_None_iff)
      from font_sort_loop_uncovered [OF ranked(4) none0 this] have "map_of d1 c = None" .
      with False None c show ?thesis by (simp add: fill [OF c] rf)
    next
      case (Some f)
      from font_sort_loop_first [OF ranked(4) ok0 c none0 Some]
      obtain tf new_id where "fcfound_to_css f new_id = Inr (Some tf)"
        and "map_of d1 c = Some (Some tf)" by blast
      with False Some show ?thesis by (auto simp: fill [OF c] rf)
    qed
  qed
  have part2: "get_true_font_by_char (svc\<lparr>font_sort := \<lambda>p. take n (font_sort svc p)\<rparr>)
                 sty chars self = (Inr d, self')"
    if cov: "\<forall>c\<in>set chars. primary_covers self sty c
                \<or> (\<exists>f\<in>set (take n (ranked_faces svc sty)). c \<in> CHARSET f)" for n
  proof -
    have cov': "\<forall>c\<in>set chars. c \<in> fst ` set d0 \<or> (\<exists>f\<in>set (take n ?found). c \<in> CHARSET f)"
      using cov primary_covers_keys [OF ranked(1)] by (simp add: rf)
    from font_sort_loop_stops [OF dist ok0 ranked(2) cov', of "drop n ?found" ?s1]
    have "font_sort_loop (take n ?found) chars d0 ?s1 = (Inr d1, self')"
      using ranked(4) by simp
    then show ?thesis
      using ranked(1,2,3,5) by (simp add: get_true_font_by_char_def)
  qed
  from part1 part2 show ?thesis by blast
qed

lemma get_true_font_by_char_returning_example:
  "\<exists>d self' d2 self2.
      get_true_font_by_char example_service example_style [65, 8990] example_cached
        = (Inr d, self')
    \<and> map_of d 65 = truefonts example_cached (items example_style)
    \<and> (\<exists>tf new_id. fcfound_to_css (example_face ''Symbola'' {66, 8990}) new_id = Inr (Some tf)
          \<and> map_of d 8990 = Some (Some tf))
    \<and> get_true_font_by_char
         (example_service\<lparr>font_sort := \<lambda>p. take 2 (font_sort example_service p)\<rparr>)
         example_style [65, 8990] example_cached = (Inr d, self')
    \<and> get_true_font_by_char example_service example_style [65, 8990, 1] example_cached
        = (Inr d2, self2)
    \<and> map_of d2 1 = Some None"
proof -
  have dist: "distinct [65::nat, 8990]" "distinct [65::nat, 8990, 1]" by simp_all
  obtain d2 self2 where run2:
    "get_true_font_by_char example_service example_style [65, 8990, 1] example_cached
       = (Inr d2, self2)"
    using example_by_char_none by (metis prod.collapse)
  note t1 = get_true_font_by_char_returning [OF dist(1) example_by_char]
  note t2 = get_true_font_by_char_returning [OF dist(2) run2]
  from t1 have a: "map_of [(65, Some (example_css 0 ''Arial'')),
                           (8990, Some (example_css 2 ''Symbola''))] (65::nat)
                     = truefonts example_cached (items example_style)"
    using example_primary(1) by auto
  from t1 have b: "\<exists>tf new_id. fcfound_to_css (example_face ''Symbola'' {66, 8990}) new_id
                       = Inr (Some tf)
        \<and> map_of [(65, Some (example_css 0 ''Arial'')),
                   (8990, Some (example_css 2 ''Symbola''))] (8990::nat) = Some (Some tf)"
    using example_primary(2) example_find(1) by auto
  have cov: "\<forall>c\<in>set [65::nat, 8990]. primary_covers example_cached example_style c
        \<or> (\<exists>f\<in>set (take 2 (ranked_faces example_service example_style)). c \<in> CHARSET f)"
    using example_primary(1) by (simp add: example_ranked) (simp add: example_face_def)
  from t1 cov have c: "get_true_font_by_char
         (example_service\<lparr>font_sort := \<lambda>p. take 2 (font_sort example_service p)\<rparr>)
         example_style [65, 8990] example_cached
       = (Inr [(65, Some (example_css 0 ''Arial'')), (8990, Some (example_css 2 ''Symbola''))],
          example_cached\<lparr>next_id := 3, queries := 2,
            fontcharsets := (fontcharsets example_cached)
               (items (example_css 1 ''Arial'') \<mapsto> {65, 66},
                items (example_css 2 ''Symbola'') \<mapsto> {66, 8990})\<rparr>)"
    by blast
  from t2 have e: "map_of d2 1 = Some None"
    using example_primary(3) example_find(2) by auto
  from example_by_char a b c run2 e show ?thesis by blast
qed

text \<open>
  Claim C1 says this of every style and every set of characters.  The call does not
  always return: the walk calls \<^verbatim>\<open>truefont.items()\<close> on the result of \<^verbatim>\<open>fcfound_to_css\<close>,
  which is \<^verbatim>\<open>None\<close> for a ranked face with a tuple-valued attribute.  With the ranked list
  Arial (covers \<open>A\<close>), a variable font (covers \<open>B\<close>, its weight is a range), Noto
  (covers \<open>C\<close>), the character \<open>A\<close> is resolved, but for \<open>C\<close>, for \<open>B\<close> and for a
  character that no face covers the call raises \<^verbatim>\<open>AttributeError\<close> where the claim has
  Noto, the variable font and \<^verbatim>\<open>None\<close>.
\<close>

theorem get_true_font_by_char_tuple_face_raises:
  "fst (get_true_font_by_char example_tuple_ranked_service example_style [65] FontConfig_init)
     = Inr [(65, Some (example_css 0 ''Arial''))]
   \<and> fst (get_true_font_by_char example_tuple_ranked_service example_style [67]
            FontConfig_init) = Inl AttributeError
   \<and> fst (get_true_font_by_char example_tuple_ranked_service example_style [66]
            FontConfig_init) = Inl AttributeError
   \<and> fst (get_true_font_by_char example_tuple_ranked_service example_style [1]
            FontConfig_init) = Inl AttributeError"
  by (simp add: get_true_font_by_char_def cached_hits_def font_sort_loop_Cons assign_step_def
        dict_comp_def dict_update_def dict_contains_def example_tuple_ranked_service_def
        example_defs eval_defs)

subsection \<open>\<^verbatim>\<open>get_true_font_by_char\<close>: the keys of the result\<close>

text \<open>
  Claim C9.  The dictionary that \<^verbatim>\<open>get_true_font_by_char\<close> returns has exactly the
  requested characters as its keys, each once (bound to a face or to \<^verbatim>\<open>None\<close>).  This holds
  for every collection of characters, with or without duplicates.
\<close>

theorem get_true_font_by_char_keys:
  assumes run: "get_true_font_by_char svc sty chars self = (Inr d, self')"
  shows "dom (map_of d) = set chars \<and> distinct (map fst d)"
  using run
proof (cases rule: get_true_font_by_char_cases)
  case (cached d0)
  have ok0: "dict_ok chars d0" by (rule cached_hits_ok [OF cached(1)])
  have "set chars \<subseteq> fst ` set d0"
    using dict_ok_missing_less [OF ok0] cached(2) by fastforce
  with ok0 cached(3) show ?thesis
    by (auto simp: dict_ok_def dom_map_of_conv_image_fst)
next
  case (ranked d0 pat d1)
  have ok0: "dict_ok chars d0" by (rule cached_hits_ok [OF ranked(1)])
  have ok1: "dict_ok chars d1" by (rule font_sort_loop_ok [OF ranked(4) ok0])
  show ?thesis
  proof (cases "length d1 < length chars")
    case True
    then have "d = dict_update d1 (dict_comp (\<lambda>c. \<not> dict_contains d1 c) None chars)"
      by (simp add: ranked(5))
    with ok1 show ?thesis
      by (auto simp: dict_ok_def dom_map_of_conv_image_fst keys_fill distinct_dict_update)
  next
    case False
    have "set chars \<subseteq> fst ` set d1"
      using dict_ok_missing_less [OF ok1] False by fastforce
    with ok1 False ranked(5) show ?thesis
      by (auto simp: dict_ok_def dom_map_of_conv_image_fst)
  qed
qed

theorem get_true_font_by_char_keys_witness:
  "\<exists>d self'.
      get_true_font_by_char example_service example_style [65, 8990, 1] FontConfig_init
        = (Inr d, self')
    \<and> dom (map_of d) = {65, 8990, 1} \<and> distinct (map fst d)"
proof -
  have "fst (get_true_font_by_char example_service example_style [65, 8990, 1]
               FontConfig_init)
     = Inr [(65, Some (example_css 0 ''Arial'')), (8990, Some (example_css 1 ''Symbola'')),
            (1, None)]"
    by (simp add: get_true_font_by_char_def cached_hits_def font_sort_loop_Cons
          assign_step_def dict_comp_def dict_update_def dict_contains_def example_defs
          eval_defs)
  then obtain d self' where run:
    "get_true_font_by_char example_service example_style [65, 8990, 1] FontConfig_init
       = (Inr d, self')"
    by (metis prod.collapse)
  from get_true_font_by_char_keys [OF run] run show ?thesis by auto
qed

subsection \<open>\<^verbatim>\<open>get_true_font\<close> on a tuple-valued attribute\<close>

lemma get_true_font_ambiguous:
  assumes "truefonts self (items sty) = None"
    and "css_to_fc_pattern sty = Inr pat"
    and "list_ex isinstance_tuple
           [FAMILY (font_match svc pat), WEIGHT (font_match svc pat),
            SLANT (font_match svc pat), WIDTH (font_match svc pat)]"
  shows "fst (get_true_font svc sty self) = Inl AttributeError"
    and "truefonts (snd (get_true_font svc sty self)) (items sty) = Some None"
  using assms by (simp_all add: get_true_font_def fcfound_to_css_def Let_def)

text \<open>
  Claim C4 says that a best match with a tuple-valued attribute makes the resolver return
  \<^verbatim>\<open>None\<close> without an error.  \<^verbatim>\<open>fcfound_to_css\<close> does return \<^verbatim>\<open>None\<close>, but \<^verbatim>\<open>get_true_font\<close> then
  calls \<^verbatim>\<open>truefont.items()\<close>: for the variable font of the example the first call raises
  \<^verbatim>\<open>AttributeError\<close>.  The two caches written before the exception make a second call
  return \<^verbatim>\<open>None\<close>.
\<close>

theorem get_true_font_tuple_raises:
  "fst (get_true_font example_variable_service example_style FontConfig_init)
     = Inl AttributeError
   \<and> fst (get_true_font example_variable_service example_style
            (snd (get_true_font example_variable_service example_style FontConfig_init)))
     = Inr None"
  by (simp add: get_true_font_def example_variable_service_def example_defs eval_defs)

subsection \<open>\<^verbatim>\<open>find_font_metrics\<close>: ascent and descent\<close>

text \<open>
  Claim C5.  Let \<open>a\<close> and \<open>d\<close> be the source ascent and descent of a face: the absolute
  values of \<^verbatim>\<open>sTypoAscender\<close> and \<^verbatim>\<open>sTypoDescender\<close> over \<^verbatim>\<open>unitsPerEm\<close> when the face has an
  \<^verbatim>\<open>OS/2\<close> table, else the absolute values of the \<^verbatim>\<open>hhea\<close> ascent and descent over
  \<^verbatim>\<open>unitsPerEm\<close>.  When \<^verbatim>\<open>find_font_metrics\<close> returns and \<open>a + d\<close> is positive, the stored
  ascent is \<open>a / (a + d)\<close> and the stored descent is \<open>d / (a + d)\<close>, so that they add up
  to 1; \<open>ascent_max\<close> and \<open>descent_max\<close> are the \<^verbatim>\<open>hhea\<close> values over \<^verbatim>\<open>unitsPerEm\<close>, not
  normalised.  Floats are the rational numbers they approximate, so the sum is exactly 1
  here and 1 up to rounding in the program.
\<close>

theorem find_font_metrics_normalized:
  assumes run: "find_font_metrics font = Inr m"
    and a: "a = (case OS2 font of
                   Some os2 \<Rightarrow> \<bar>of_int (sTypoAscender os2) / of_nat (unitsPerEm font)\<bar>
                 | None \<Rightarrow> \<bar>of_int (ascent (hhea font)) / of_nat (unitsPerEm font)\<bar>)"
    and d: "d = (case OS2 font of
                   Some os2 \<Rightarrow> \<bar>of_int (sTypoDescender os2) / of_nat (unitsPerEm font)\<bar>
                 | None \<Rightarrow> \<bar>of_int (descent (hhea font)) / of_nat (unitsPerEm font)\<bar>)"
    and pos: "0 < a + d"
  shows "self_ascent m = a / (a + d)
       \<and> self_descent m = d / (a + d)
       \<and> self_ascent m + self_descent m = 1
       \<and> self_ascent_max m = \<bar>of_int (ascent (hhea font)) / of_nat (unitsPerEm font)\<bar>
       \<and> self_descent_max m = \<bar>of_int (descent (hhea font)) / of_nat (unitsPerEm font)\<bar>"
proof -
  have src: "source_ascent font = a" "source_descent font = d"
    by (simp_all add: source_ascent_def source_descent_def a d)
  from run pos have sa: "self_ascent m = a / (a + d)"
    and sd: "self_descent m = d / (a + d)"
    and am: "self_ascent_max m = \<bar>of_int (ascent (hhea font)) / of_nat (unitsPerEm font)\<bar>"
    and dm: "self_descent_max m = \<bar>of_int (descent (hhea font)) / of_nat (unitsPerEm font)\<bar>"
    unfolding find_font_metrics_def Let_def src
    by (auto split: if_splits sum.splits)
  have "self_ascent m + self_descent m = (a + d) / (a + d)"
    unfolding sa sd by (rule add_divide_distrib [symmetric])
  also have "\<dots> = 1" using pos by simp
  finally show ?thesis using sa sd am dm by simp
qed

theorem find_font_metrics_normalized_witness:
  "\<exists>m m'. find_font_metrics example_font = Inr m
      \<and> self_ascent m = (3 / 8) / (3 / 8 + 1 / 8) \<and> self_descent m = (1 / 8) / (3 / 8 + 1 / 8)
      \<and> self_ascent m + self_descent m = 1
      \<and> self_ascent_max m = 6 / 5 \<and> self_descent_max m = 3 / 10
      \<and> find_font_metrics (example_font\<lparr> OS2 := None \<rparr>) = Inr m'
      \<and> self_ascent m' = (6 / 5) / (6 / 5 + 3 / 10)
      \<and> self_descent m' = (3 / 10) / (6 / 5 + 3 / 10)
      \<and> self_ascent m' + self_descent m' = 1
      \<and> self_ascent_max m' = 6 / 5 \<and> self_descent_max m' = 3 / 10"
proof -
  have a1: "(3 / 8 :: rat) = (case OS2 example_font of
        Some os2 \<Rightarrow> \<bar>of_int (sTypoAscender os2) / of_nat (unitsPerEm example_font)\<bar>
      | None \<Rightarrow> \<bar>of_int (ascent (hhea example_font)) / of_nat (unitsPerEm example_font)\<bar>)"
    by (simp add: example_font_sel example_os2_sel)
  have d1: "(1 / 8 :: rat) = (case OS2 example_font of
        Some os2 \<Rightarrow> \<bar>of_int (sTypoDescender os2) / of_nat (unitsPerEm example_font)\<bar>
      | None \<Rightarrow> \<bar>of_int (descent (hhea example_font)) / of_nat (unitsPerEm example_font)\<bar>)"
    by (simp add: example_font_sel example_os2_sel)
  have p1: "(0 :: rat) < 3 / 8 + 1 / 8" by simp
  have a2: "(6 / 5 :: rat) = (case OS2 (example_font\<lparr> OS2 := None \<rparr>) of
        Some os2 \<Rightarrow> \<bar>of_int (sTypoAscender os2)
                      / of_nat (unitsPerEm (example_font\<lparr> OS2 := None \<rparr>))\<bar>
      | None \<Rightarrow> \<bar>of_int (ascent (hhea (example_font\<lparr> OS2 := None \<rparr>)))
                   / of_nat (unitsPerEm (example_font\<lparr> OS2 := None \<rparr>))\<bar>)"
    by (simp add: example_font_sel)
  have d2: "(3 / 10 :: rat) = (case OS2 (example_font\<lparr> OS2 := None \<rparr>) of
        Some os2 \<Rightarrow> \<bar>of_int (sTypoDescender os2)
                      / of_nat (unitsPerEm (example_font\<lparr> OS2 := None \<rparr>))\<bar>
      | None \<Rightarrow> \<bar>of_int (descent (hhea (example_font\<lparr> OS2 := None \<rparr>)))
                   / of_nat (unitsPerEm (example_font\<lparr> OS2 := None \<rparr>))\<bar>)"
    by (simp add: example_font_sel)
  have p2: "(0 :: rat) < 6 / 5 + 3 / 10" by simp
  note t1 = find_font_metrics_normalized [OF example_metrics a1 d1 p1]
  note t2 = find_font_metrics_normalized [OF example_metrics_hhea a2 d2 p2]
  from example_metrics example_metrics_hhea t1 t2 show ?thesis
    by (intro exI conjI) (erule conjunct1 conjunct2 | assumption | simp)+
qed

subsection \<open>\<^verbatim>\<open>get_char_advances\<close> without a character map\<close>

text \<open>
  Claim C7.  For a face whose best character map is \<^verbatim>\<open>None\<close>, \<^verbatim>\<open>get_char_advances\<close> returns
  \<^verbatim>\<open>None\<close> for the advances, the pair adjustments and the ink boxes, whatever characters
  and pairs are requested.
\<close>

theorem get_char_advances_no_cmap:
  assumes "getBestCmap font = None"
  shows "get_char_advances font chars pchars = Inr (None, None, None)"
  using assms by (simp add: get_char_advances_def)

theorem get_char_advances_no_cmap_witness:
  "get_char_advances (example_font\<lparr> getBestCmap := None \<rparr>) [65, 86] [(86, [65])]
     = Inr (None, None, None)"
proof -
  have "getBestCmap (example_font\<lparr> getBestCmap := None \<rparr>) = None" by simp
  then show ?thesis by (rule get_char_advances_no_cmap)
qed

subsection \<open>\<^verbatim>\<open>get_char_advances\<close>: characters without an advance\<close>

text \<open>
  Claim C10.  On a face with a character map, a requested character whose glyph has no
  entry in the horizontal metrics gets no key in the advances (the key is missing, it is
  not bound to \<^verbatim>\<open>None\<close>); a requested character that the character map does not map is
  bound to \<^verbatim>\<open>None\<close> in the advances and has no key in the ink boxes.
\<close>

theorem get_char_advances_missing_entries:
  assumes run: "get_char_advances font chars pchars = Inr (Some advs, Some dadvs, Some bbs)"
    and cmap: "getBestCmap font = Some cmap"
    and c: "c \<in> set chars"
  shows "(\<forall>g. cmap c = Some g \<and> hmtx_metrics font g = None \<longrightarrow> map_of advs c = None)
       \<and> (cmap c = None \<longrightarrow> map_of advs c = Some None \<and> map_of bbs c = None)"
proof -
  from run cmap have loop: "chars_loop font cmap chars [] [] = Inr (advs, bbs)"
    by (auto elim!: get_char_advances_cases)
  from chars_loop_advs [OF loop, of c] chars_loop_bbs [OF loop, of c] c
  show ?thesis by (auto split: option.splits)
qed

theorem get_char_advances_missing_entries_witness:
  "\<exists>advs dadvs bbs.
      get_char_advances example_font [65, 120, 8990] [] = Inr (Some advs, Some dadvs, Some bbs)
    \<and> map_of advs 120 = None
    \<and> map_of advs 8990 = Some None \<and> map_of bbs 8990 = None"
proof -
  note t1 = get_char_advances_missing_entries [OF example_advances example_cmap, of 120]
  note t2 = get_char_advances_missing_entries [OF example_advances example_cmap, of 8990]
  have x: "hmtx_metrics example_font ''x'' = None" by (simp add: example_font_sel)
  from t1 x have a: "map_of [(65::nat, Some (13 / 20 :: rat)), (8990, None)] 120 = None"
    by simp
  from t2 have b: "map_of [(65::nat, Some (13 / 20 :: rat)), (8990, None)] 8990 = Some None
      \<and> map_of [(65::nat, [0, - (7 / 10), 13 / 20, 7 / 10 :: rat]), (120, [0, 0, 0, 0])] 8990
          = None"
    by simp
  from example_advances a b show ?thesis by blast
qed

subsection \<open>\<^verbatim>\<open>get_char_advances\<close>: ligatures before kerning\<close>

text \<open>
  Claim C2.  For a requested pair of a preceding character \<open>pc\<close> and a character \<open>c\<close>: when
  the ligature table has an entry for the two glyphs, the adjustment is the advance of
  the ligature glyph minus the advances of the two glyphs, over \<^verbatim>\<open>unitsPerEm\<close>, whatever
  the kerning subtables hold for the pair.  Otherwise it is the value of the first
  kerning subtable, in order, that has the pair, over \<^verbatim>\<open>unitsPerEm\<close>; and 0 when the face
  has no kerning table or no subtable has the pair.
\<close>

theorem get_char_advances_pair_adjustment:
  assumes run: "get_char_advances font chars pchars = Inr (Some advs, Some dadvs, Some bbs)"
    and cmap: "getBestCmap font = Some cmap"
    and pair: "(c, pcs) \<in> set pchars" "pc \<in> set pcs"
  shows "case get_ligatures font [cmap pc, cmap c] of
           Some ligglyph \<Rightarrow>
             \<exists>g1 g2 awlig lsb aw1 lsb1 aw2 lsb2.
                cmap pc = Some g1 \<and> cmap c = Some g2
              \<and> hmtx_metrics font ligglyph = Some (awlig, lsb)
              \<and> hmtx_metrics font g1 = Some (aw1, lsb1)
              \<and> hmtx_metrics font g2 = Some (aw2, lsb2)
              \<and> map_of dadvs (pc, c)
                  = Some (of_int (awlig - aw1 - aw2) / of_nat (unitsPerEm font))
         | None \<Rightarrow>
             map_of dadvs (pc, c)
               = Some (of_int
                   (case kern font of
                      None \<Rightarrow> 0
                    | Some kernTables \<Rightarrow>
                       (case find (\<lambda>t. t (cmap pc, cmap c) \<noteq> None) kernTables of
                          None \<Rightarrow> 0
                        | Some t \<Rightarrow> the (t (cmap pc, cmap c))))
                   / of_nat (unitsPerEm font))"
proof -
  from run cmap have loop: "pchars_loop font cmap (get_ligatures font) pchars [] = Inr dadvs"
    by (auto elim!: get_char_advances_cases)
  from pchars_loop_pair [OF loop pair] obtain v where
    v: "pair_adjustment font cmap (get_ligatures font) pc c = Inr v"
    and entry: "map_of dadvs (pc, c) = Some v" by blast
  from v obtain k where k: "kerning_value font (get_ligatures font) (cmap pc) (cmap c) = Inr k"
    and vk: "v = of_int k / of_nat (unitsPerEm font)"
    by (auto simp: pair_adjustment_def py_truediv_def split: sum.splits if_splits)
  show ?thesis
  proof (cases "get_ligatures font [cmap pc, cmap c]")
    case (Some ligglyph)
    with k obtain awlig lsb aw1 lsb1 aw2 lsb2 where
      m: "metrics_getitem font (Some ligglyph) = Inr (awlig, lsb)"
         "metrics_getitem font (cmap pc) = Inr (aw1, lsb1)"
         "metrics_getitem font (cmap c) = Inr (aw2, lsb2)"
      and kv: "k = awlig - aw1 - aw2"
      by (auto simp: kerning_value_def split: sum.splits prod.splits)
    from m obtain g1 g2 where "cmap pc = Some g1" "cmap c = Some g2"
      "hmtx_metrics font ligglyph = Some (awlig, lsb)"
      "hmtx_metrics font g1 = Some (aw1, lsb1)" "hmtx_metrics font g2 = Some (aw2, lsb2)"
      by (auto simp: metrics_getitem_def split: option.splits)
    with Some entry vk kv show ?thesis by auto
  next
    case None
    with k have "k = (case kern font of
                        None \<Rightarrow> 0
                      | Some kernTables \<Rightarrow>
                         (case find (\<lambda>t. t (cmap pc, cmap c) \<noteq> None) kernTables of
                            None \<Rightarrow> 0
                          | Some t \<Rightarrow> the (t (cmap pc, cmap c))))"
      by (auto simp: kerning_value_def kern_scan_find split: option.splits
            dest: find_Some_iff [THEN iffD1])
    with None entry vk show ?thesis by simp
  qed
qed

theorem get_char_advances_pair_adjustment_witness:
  "\<exists>advs dadvs bbs kernTables.
      get_char_advances example_font [] [(105, [102]), (86, [65]), (65, [86])]
        = Inr (Some advs, Some dadvs, Some bbs)
    \<and> kern example_font = Some kernTables
    \<and> kern_scan kernTables (Some ''f'', Some ''i'') = Some (- 40)
    \<and> map_of dadvs (102, 105) = Some ((1000 - 600 - 500) / 2000)
    \<and> map_of dadvs (65, 86) = Some (- 160 / 2000)
    \<and> map_of dadvs (86, 65) = Some 0"
proof -
  have m: "(105, [102]) \<in> set [(105::nat, [102::nat]), (86, [65]), (65, [86])]"
    "(86, [65]) \<in> set [(105::nat, [102::nat]), (86, [65]), (65, [86])]"
    "(65, [86]) \<in> set [(105::nat, [102::nat]), (86, [65]), (65, [86])]"
    "102 \<in> set [102::nat]" "65 \<in> set [65::nat]" "86 \<in> set [86::nat]"
    by simp_all
  note t1 = get_char_advances_pair_adjustment [OF example_pairs example_cmap m(1) m(4)]
  note t2 = get_char_advances_pair_adjustment [OF example_pairs example_cmap m(2) m(5)]
  note t3 = get_char_advances_pair_adjustment [OF example_pairs example_cmap m(3) m(6)]
  note k = example_font_sel(7)
  have ks: "kern_scan [Map.empty,
      [(Some ''f'', Some ''i'') \<mapsto> - 40, (Some ''A'', Some ''V'') \<mapsto> - 160]]
      (Some ''f'', Some ''i'') = Some (- 40)" by simp
  have h: "hmtx_metrics example_font ''f_i'' = Some (1000, 20)"
    "hmtx_metrics example_font ''f'' = Some (600, 20)"
    "hmtx_metrics example_font ''i'' = Some (500, 40)"
    "unitsPerEm example_font = 2000"
    by (simp_all add: example_font_sel)
  from t1 have a: "map_of [((102::nat, 105::nat), - (1 / 20 :: rat)), ((65, 86), - (2 / 25)),
      ((86, 65), 0)] (102, 105) = Some ((1000 - 600 - 500) / 2000)"
    by (simp add: example_ligatures h)
  from t2 have b: "map_of [((102::nat, 105::nat), - (1 / 20 :: rat)), ((65, 86), - (2 / 25)),
      ((86, 65), 0)] (65, 86) = Some (- 160 / 2000)"
    by (simp add: example_ligatures k h)
  from t3 have c: "map_of [((102::nat, 105::nat), - (1 / 20 :: rat)), ((65, 86), - (2 / 25)),
      ((86, 65), 0)] (86, 65) = Some 0"
    by (simp add: example_ligatures k h)
  from example_pairs k ks a b c show ?thesis by blast
qed

subsection \<open>\<^verbatim>\<open>font_from_fc\<close>: the face chosen from a collection\<close>

text \<open>
  Claim C8.  Let the file be a non-empty collection whose faces all have an \<^verbatim>\<open>OS/2\<close> table
  with a width class from 1 to 9.  The score that the code gives a face is the number of
  the three tests against the requested pattern that hold (\<open>spec_score\<close>: nearest
  fontconfig weight equal to the requested weight, width equal to the requested width,
  italic flag consistent with the requested slant).  \<^verbatim>\<open>font_from_fc\<close> returns the first
  face of the highest score: every face before it has a strictly lower score and no face
  after it has a higher one.  When the highest score is zero this is the first face of
  the collection.
\<close>

theorem font_from_fc_collection:
  assumes coll: "open_file lib (FILE found) = FontCollection fonts"
    and ne: "fonts \<noteq> []"
    and os2: "\<forall>t\<in>set fonts. \<exists>os2. OS2 t = Some os2
                \<and> 1 \<le> usWidthClass os2 \<and> usWidthClass os2 \<le> 9"
  shows "(\<forall>t\<in>set fonts. subface_score found t = Inr (spec_score found t))
       \<and> (\<exists>pre t post. fonts = pre @ t # post \<and> font_from_fc lib found = Inr t
            \<and> (\<forall>u\<in>set pre. spec_score found u < spec_score found t)
            \<and> (\<forall>u\<in>set post. spec_score found u \<le> spec_score found t)
            \<and> (spec_score found t = 0 \<longrightarrow> pre = []))"
proof -
  have sc: "\<forall>t\<in>set fonts. subface_score found t = Inr (spec_score found t)"
  proof
    fix t assume "t \<in> set fonts"
    with os2 obtain o2 where "OS2 t = Some o2" "1 \<le> usWidthClass o2" "usWidthClass o2 \<le> 9"
      by blast
    then show "subface_score found t = Inr (spec_score found t)"
      by (rule subface_score_spec)
  qed
  from select_subface_first_best [OF ne sc] obtain pre t post where
    s: "fonts = pre @ t # post" "select_subface found fonts = Inr t"
       "\<forall>u\<in>set pre. spec_score found u < spec_score found t"
       "\<forall>u\<in>set post. spec_score found u \<le> spec_score found t" by blast
  have sel: "font_from_fc lib found = Inr t"
    unfolding font_from_fc_def coll using s(2) by simp
  have first: "spec_score found t = 0 \<longrightarrow> pre = []"
  proof
    assume "spec_score found t = 0"
    with s(3) have "set pre = {}" by auto
    then show "pre = []" by simp
  qed
  from s(1) sel s(3,4) first
  have "\<exists>pre t post. fonts = pre @ t # post \<and> font_from_fc lib found = Inr t
            \<and> (\<forall>u\<in>set pre. spec_score found u < spec_score found t)
            \<and> (\<forall>u\<in>set post. spec_score found u \<le> spec_score found t)
            \<and> (spec_score found t = 0 \<longrightarrow> pre = [])"
    by (intro exI conjI)
  with sc show ?thesis by (rule conjI)
qed

theorem font_from_fc_collection_witness:
  "subface_score example_found example_light = Inr 0
   \<and> subface_score example_found example_font = Inr 2
   \<and> subface_score example_found example_bold = Inr 2
   \<and> example_collection = [example_light] @ example_font # [example_bold]
   \<and> font_from_fc example_lib example_found = Inr example_font"
proof -
  have coll: "open_file example_lib (FILE example_found) = FontCollection example_collection"
    by (simp add: example_lib_def)
  have ne: "example_collection \<noteq> []" by (simp add: example_collection_def)
  have os2: "\<forall>t\<in>set example_collection. \<exists>os2. OS2 t = Some os2
      \<and> 1 \<le> usWidthClass os2 \<and> usWidthClass os2 \<le> 9"
    by (simp add: example_collection_def example_font_sel example_light_sel
          example_bold_sel example_os2_sel)
  note t = font_from_fc_collection [OF coll ne os2]
  from t have sc: "\<forall>t\<in>set example_collection.
      subface_score example_found t = Inr (spec_score example_found t)"
    by (rule conjunct1)
  then have scores: "subface_score example_found example_light = Inr 0"
    "subface_score example_found example_font = Inr 2"
    "subface_score example_found example_bold = Inr 2"
    by (simp_all add: example_collection_def example_spec_scores)
  from t obtain pre u post where
    s: "example_collection = pre @ u # post" "font_from_fc example_lib example_found = Inr u"
       "\<forall>v\<in>set pre. spec_score example_found v < spec_score example_found u"
       "\<forall>v\<in>set post. spec_score example_found v \<le> spec_score example_found u"
    by blast
  have split: "example_collection = [example_light] @ example_font # [example_bold]"
    by (simp add: example_collection_def)
  have chosen: "u = example_font"
  proof -
    from s(1) split have whole: "pre @ u # post = [example_light, example_font, example_bold]"
      by simp
    then have cases: "(pre = [] \<and> u = example_light)
        \<or> (pre = [example_light] \<and> u = example_font)
        \<or> (pre = [example_light, example_font] \<and> u = example_bold)"
      by (auto simp: append_eq_Cons_conv)
    from cases show ?thesis
    proof (elim disjE conjE)
      assume p: "pre = []" "u = example_light"
      with whole have "post = [example_font, example_bold]" by simp
      with s(4) p show ?thesis by (simp add: example_spec_scores)
    next
      assume "pre = [example_light]" "u = example_font"
      then show ?thesis by simp
    next
      assume p: "pre = [example_light, example_font]" "u = example_bold"
      with s(3) show ?thesis by (simp add: example_spec_scores)
    qed
  qed
  from scores split s(2) chosen show ?thesis by simp
qed

end
